theory Spec2Isabelle
  imports Complex_Main
begin

section \<open>Double-precision values\<close>

text \<open>
  The C source computes with \<^verbatim>\<open>double\<close>. The model keeps the arithmetic exact: a finite
  double is a real number, and rounding, overflow and underflow are outside this model
  (the rounding of binary64 is added in a section of its own below).
  What the model does keep is the one way in which this function leaves the finite numbers:
  a division by zero. In IEEE-754 arithmetic a division by zero gives an infinity or a NaN,
  and every addition, subtraction and multiplication with such an operand, and every
  division of it by a finite number, again gives an infinity or a NaN. \<open>NonFin\<close> stands
  for such a value (an infinity or a NaN, not told apart).
\<close>

datatype double = Fin real | NonFin

instantiation double :: "{comm_monoid_add, minus, times}"
begin

definition zero_double :: double where
  "zero_double = Fin 0"

definition plus_double :: "double \<Rightarrow> double \<Rightarrow> double" where
  "plus_double a b = (case a of NonFin \<Rightarrow> NonFin
     | Fin u \<Rightarrow> (case b of NonFin \<Rightarrow> NonFin | Fin v \<Rightarrow> Fin (u + v)))"

definition minus_double :: "double \<Rightarrow> double \<Rightarrow> double" where
  "minus_double a b = (case a of NonFin \<Rightarrow> NonFin
     | Fin u \<Rightarrow> (case b of NonFin \<Rightarrow> NonFin | Fin v \<Rightarrow> Fin (u - v)))"

definition times_double :: "double \<Rightarrow> double \<Rightarrow> double" where
  "times_double a b = (case a of NonFin \<Rightarrow> NonFin
     | Fin u \<Rightarrow> (case b of NonFin \<Rightarrow> NonFin | Fin v \<Rightarrow> Fin (u * v)))"

instance
proof
  fix a b c :: double
  show "a + b + c = a + (b + c)"
    by (cases a; cases b; cases c) (simp_all add: plus_double_def)
  show "a + b = b + a"
    by (cases a; cases b) (simp_all add: plus_double_def)
  show "0 + a = a"
    by (cases a) (simp_all add: plus_double_def zero_double_def)
qed

end

text \<open>
  Division of a double by a finite double. Every divisor of the function (\<open>dr\<close>,
  \<open>dr*dr\<close> and \<open>c\<close>) is computed from finite values only, so the divisor is a real;
  a zero divisor gives a non-finite quotient (\<open>0/0\<close> is a NaN, \<open>u/0\<close> an infinity).
\<close>

definition ddiv :: "double \<Rightarrow> real \<Rightarrow> double" where
  "ddiv a d = (case a of NonFin \<Rightarrow> NonFin
     | Fin u \<Rightarrow> (if d = 0 then NonFin else Fin (u / d)))"

section \<open>The data of the simulation\<close>

text \<open>
  Modelled from the spec: the structs and the key \<^verbatim>\<open>RAD_BETA\<close> are declared in
  \<^verbatim>\<open>reboundx.h\<close> and the headers it includes, not in the file of the function. The records
  below have the fields the function uses, with the names it uses; the spec describes them
  in its data model (particle, radiation parameters, beta coefficient).

  The keys of the per-particle parameter store. The function looks up \<open>RAD_BETA\<close> only;
  \<open>OTHER_PARAM\<close> stands for the keys of the other effects.
\<close>

datatype rebx_param_type = RAD_BETA | OTHER_PARAM nat

text \<open>
  Modelled from the spec: \<^verbatim>\<open>struct reb_particle\<close> has position, velocity, accumulated
  acceleration and mass, and the parameter store \<open>ap\<close> hanging off the particle, a store
  of optional scalars by key. The fields the function only reads are finite
  (type \<open>real\<close>) in every call the model covers; the accelerations, which it writes, are
  of type \<open>double\<close>, because a division by zero makes them non-finite.
\<close>

record reb_particle =
  x :: real
  y :: real
  z :: real
  vx :: real
  vy :: real
  vz :: real
  ax :: double
  ay :: double
  az :: double
  m :: real
  ap :: "rebx_param_type \<rightharpoonup> real"

text \<open>
  Modelled from the spec: \<^verbatim>\<open>struct reb_simulation\<close> provides the gravitational constant,
  the particle count, the count of variational particles, and the particle array. The
  list is the allocated array; \<open>N\<close> is a field of its own, as in the C struct. The C
  \<^verbatim>\<open>int\<close>s are integers here: signed overflow is undefined in C and outside the model.
\<close>

record reb_simulation =
  G :: real
  N :: int
  N_var :: int
  particles :: "reb_particle list"

text \<open>
  Modelled from the spec: the parameters of the effect are the speed of light \<open>c\<close> and the
  index \<open>source_index\<close> of the source in the particle array; the effect points to them.
\<close>

record rebx_params_radiation_forces =
  c :: real
  source_index :: int

record rebx_effect =
  paramsPtr :: rebx_params_radiation_forces

text \<open>
  Modelled from the spec: \<^verbatim>\<open>rebx_search_param\<close> comes with \<^verbatim>\<open>reboundx.h\<close> and is not
  defined in the file of the function. The spec describes it as a key-based lookup in the
  particle's parameter store that returns an optional scalar: the value stored under the
  key, or absent (the C function returns a null pointer).
\<close>

definition rebx_search_param :: "reb_particle \<Rightarrow> rebx_param_type \<Rightarrow> real option" where
  "rebx_search_param p k = ap p k"

section \<open>The function \<^verbatim>\<open>rebx_radiation_forces\<close>\<close>

text \<open>The distance to the star (lines 48 to 51).\<close>

definition rad_dr :: "reb_particle \<Rightarrow> reb_particle \<Rightarrow> real" where
  "rad_dr source p =
     (let dx = x p - x source;
          dy = y p - y source;
          dz = z p - z source
      in sqrt (dx*dx + dy*dy + dz*dz))"

text \<open>The radial velocity (lines 48 to 56).\<close>

definition rad_rdot :: "reb_particle \<Rightarrow> reb_particle \<Rightarrow> double" where
  "rad_rdot source p =
     (let dx = x p - x source;
          dy = y p - y source;
          dz = z p - z source;
          dr = rad_dr source p;
          dvx = vx p - vx source;
          dvy = vy p - vy source;
          dvz = vz p - vz source
      in ddiv (Fin (dx*dvx + dy*dvy + dz*dvz)) dr)"

text \<open>The factor \<^verbatim>\<open>(1.-rdot/c)\<close> of lines 61 to 63.\<close>

definition rad_factor :: "double \<Rightarrow> real \<Rightarrow> double" where
  "rad_factor rdot cl = Fin 1 - ddiv rdot cl"

text \<open>
  Lines 48 to 63 for one particle \<open>p\<close> with coefficient \<open>beta\<close>: the three terms that are
  added to the accelerations of the source. \<open>cl\<close> is the local \<^verbatim>\<open>c\<close>, \<open>source\<close> the copy
  of the source particle made before the loop, \<open>mu\<close> the local \<^verbatim>\<open>mu\<close>. The C expression
  \<^verbatim>\<open>(1.-rdot/c)*dx/dr\<close> multiplies first and divides then.
\<close>

definition rad_accel ::
  "real \<Rightarrow> real \<Rightarrow> reb_particle \<Rightarrow> reb_particle \<Rightarrow> real \<Rightarrow> double \<times> double \<times> double" where
  "rad_accel cl mu source p beta =
     (let dx = x p - x source;
          dy = y p - y source;
          dz = z p - z source;
          dr = rad_dr source p;
          dvx = vx p - vx source;
          dvy = vy p - vy source;
          dvz = vz p - vz source;
          rdot = rad_rdot source p;
          a_rad = ddiv (Fin (beta*mu)) (dr*dr)
      in (a_rad * (ddiv (rad_factor rdot cl * Fin dx) dr - ddiv (Fin dvx) cl),
          a_rad * (ddiv (rad_factor rdot cl * Fin dy) dr - ddiv (Fin dvy) cl),
          a_rad * (ddiv (rad_factor rdot cl * Fin dz) dr - ddiv (Fin dvz) cl)))"

text \<open>
  The three assignments \<^verbatim>\<open>particles[source_index].ax += ...\<close> of lines 61 to 63: the
  element of the array at \<open>source_index\<close> gets the three terms added.
\<close>

definition add_source_acc :: "int \<Rightarrow> double \<times> double \<times> double \<Rightarrow> reb_simulation \<Rightarrow> reb_simulation" where
  "add_source_acc si t sim =
     (let s = particles sim ! nat si
      in sim\<lparr>particles := (particles sim)[nat si :=
           s\<lparr>ax := ax s + fst t, ay := ay s + fst (snd t), az := az s + snd (snd t)\<rparr>]\<rparr>)"

text \<open>
  The loop of lines 41 to 64, run in the order of the indices (the program without
  OpenMP; the concurrent runs of the pragma are outside the model). \<open>i\<close> is the loop
  counter, which starts at 0. Reading \<^verbatim>\<open>sim->particles[i]\<close> beyond the array is undefined
  behaviour in C: the model returns \<open>None\<close> there.
\<close>

function rad_loop ::
  "real \<Rightarrow> int \<Rightarrow> reb_particle \<Rightarrow> real \<Rightarrow> int \<Rightarrow> int \<Rightarrow> reb_simulation \<Rightarrow> reb_simulation option" where
  "rad_loop cl si source mu n_real i sim =
     (if i < n_real then
        (if i = si then rad_loop cl si source mu n_real (i + 1) sim
         else if \<not> nat i < length (particles sim) then None
         else
           (let p = particles sim ! nat i
            in case rebx_search_param p RAD_BETA of
                 None \<Rightarrow> rad_loop cl si source mu n_real (i + 1) sim
               | Some beta \<Rightarrow>
                   rad_loop cl si source mu n_real (i + 1)
                     (add_source_acc si (rad_accel cl mu source p beta) sim)))
      else Some sim)"
  by pat_completeness auto
termination
  by (relation "measure (\<lambda>(cl, si, source, mu, n_real, i, sim). nat (n_real - i))") auto

text \<open>
  The function (lines 31 to 65). The copy \<open>source\<close> of the source particle and \<open>mu\<close> are
  made once, before the loop. Reading \<^verbatim>\<open>particles[source_index]\<close> outside the array is
  undefined behaviour: \<open>None\<close>.
\<close>

definition rebx_radiation_forces :: "reb_simulation \<Rightarrow> rebx_effect \<Rightarrow> reb_simulation option" where
  "rebx_radiation_forces sim rad =
     (let params = paramsPtr rad;
          cl = c params;
          si = source_index params
      in if \<not> (0 \<le> si \<and> nat si < length (particles sim)) then None
         else
           (let source = particles sim ! nat si;
                mu = G sim * m source;
                n_real = N sim - N_var sim
            in rad_loop cl si source mu n_real 0 sim))"

section \<open>Notions for stating the properties\<close>

text \<open>
  Adding two triples of terms, and the sum of a list of triples.
\<close>

definition vadd ::
  "double \<times> double \<times> double \<Rightarrow> double \<times> double \<times> double \<Rightarrow> double \<times> double \<times> double" where
  "vadd s t = (fst s + fst t, fst (snd s) + fst (snd t), snd (snd s) + snd (snd t))"

definition vsum :: "(double \<times> double \<times> double) list \<Rightarrow> double \<times> double \<times> double" where
  "vsum ts =
     (sum_list (map fst ts),
      sum_list (map (\<lambda>t. fst (snd t)) ts),
      sum_list (map (\<lambda>t. snd (snd t)) ts))"

text \<open>
  What the iteration for index \<open>j\<close> of the loop adds to the accelerations of the source:
  nothing at the index of the source and for a particle with no coefficient, the terms of
  lines 61 to 63 otherwise.
\<close>

definition iter_term ::
  "real \<Rightarrow> int \<Rightarrow> reb_particle \<Rightarrow> real \<Rightarrow> reb_simulation \<Rightarrow> int \<Rightarrow> double \<times> double \<times> double" where
  "iter_term cl si source mu sim j =
     (if j = si then (0, 0, 0)
      else case rebx_search_param (particles sim ! nat j) RAD_BETA of
             None \<Rightarrow> (0, 0, 0)
           | Some beta \<Rightarrow> rad_accel cl mu source (particles sim ! nat j) beta)"

text \<open>
  The calls in which every read of the particle array is inside the array: the index of
  the source is an index of the array, and the array holds the \<open>N - N_var\<close> real
  particles. These are exactly the calls in which the function returns
  (\<open>rebx_radiation_forces_returns_iff\<close> below).
\<close>

definition valid_call :: "reb_simulation \<Rightarrow> rebx_effect \<Rightarrow> bool" where
  "valid_call sim rad =
     (0 \<le> source_index (paramsPtr rad)
      \<and> source_index (paramsPtr rad) < int (length (particles sim))
      \<and> N sim - N_var sim \<le> int (length (particles sim)))"

text \<open>
  The particle at \<open>source_index\<close>, and its three accelerations.
\<close>

definition source_of :: "reb_simulation \<Rightarrow> rebx_effect \<Rightarrow> reb_particle" where
  "source_of sim rad = particles sim ! nat (source_index (paramsPtr rad))"

definition source_acc :: "reb_simulation \<Rightarrow> rebx_effect \<Rightarrow> double \<times> double \<times> double" where
  "source_acc sim rad = (ax (source_of sim rad), ay (source_of sim rad), az (source_of sim rad))"




text \<open>
  The state with offsets added to the accelerations of the particles, the particle at
  index \<open>j\<close> getting the triple \<open>off j\<close>.
\<close>

definition offset_acc :: "(nat \<Rightarrow> double \<times> double \<times> double) \<Rightarrow> reb_simulation \<Rightarrow> reb_simulation" where
  "offset_acc off sim =
     sim\<lparr>particles :=
       map (\<lambda>(j, p). p\<lparr>ax := ax p + fst (off j), ay := ay p + fst (snd (off j)),
                        az := az p + snd (snd (off j))\<rparr>)
         (enumerate 0 (particles sim))\<rparr>"

text \<open>
  The state in which only the particles with an index in \<open>K\<close> keep their beta
  coefficient; the others lose it and are otherwise as before.
\<close>

definition keep_beta :: "int set \<Rightarrow> reb_simulation \<Rightarrow> reb_simulation" where
  "keep_beta K sim =
     sim\<lparr>particles :=
       map (\<lambda>(j, p). if int j \<in> K then p else p\<lparr>ap := (ap p)(RAD_BETA := None)\<rparr>)
         (enumerate 0 (particles sim))\<rparr>"

section \<open>Example states\<close>

text \<open>
  The scenario of the specification: a source at rest at the origin with mass 1, one
  particle at \<open>(1,0,0)\<close> at rest with \<open>beta = 0.01\<close>, \<open>G = 1\<close> and \<open>c = 10000\<close>.
\<close>

definition star :: reb_particle where
  "star = \<lparr>x = 0, y = 0, z = 0, vx = 0, vy = 0, vz = 0, ax = Fin 0, ay = Fin 0, az = Fin 0,
     m = 1, ap = Map.empty\<rparr>"

definition grain :: reb_particle where
  "grain = \<lparr>x = 1, y = 0, z = 0, vx = 0, vy = 0, vz = 0, ax = Fin 0, ay = Fin 0, az = Fin 0,
     m = 0, ap = [RAD_BETA \<mapsto> 1 / 100]\<rparr>"

definition scenario_sim :: reb_simulation where
  "scenario_sim = \<lparr>G = 1, N = 2, N_var = 0, particles = [star, grain]\<rparr>"

definition scenario_rad :: rebx_effect where
  "scenario_rad = \<lparr>paramsPtr = \<lparr>c = 10000, source_index = 0\<rparr>\<rparr>"

text \<open>
  The same with the particle at the position of the source.
\<close>

definition clash_sim :: reb_simulation where
  "clash_sim = \<lparr>G = 1, N = 2, N_var = 0, particles = [star, grain\<lparr>x := 0\<rparr>]\<rparr>"

text \<open>
  A state with five particles: a source that has a coefficient itself, two moving
  particles with a coefficient, one particle without, and one variational particle with a
  coefficient; \<open>c = 10\<close>. \<open>pebble\<close> is another particle without a coefficient.
\<close>

definition sun :: reb_particle where
  "sun = \<lparr>x = 0, y = 0, z = 0, vx = 0, vy = 0, vz = 0, ax = Fin 1, ay = Fin 0, az = Fin 0,
     m = 2, ap = [RAD_BETA \<mapsto> 5]\<rparr>"

definition dust1 :: reb_particle where
  "dust1 = \<lparr>x = 2, y = 0, z = 0, vx = 1, vy = 1, vz = 0, ax = Fin 0, ay = Fin 0, az = Fin 0,
     m = 0, ap = [RAD_BETA \<mapsto> 1 / 2]\<rparr>"

definition rock :: reb_particle where
  "rock = \<lparr>x = 0, y = 3, z = 0, vx = 1, vy = 0, vz = 0, ax = Fin 0, ay = Fin 0, az = Fin 0,
     m = 1, ap = Map.empty\<rparr>"

definition dust2 :: reb_particle where
  "dust2 = \<lparr>x = 0, y = 0, z = - 1, vx = 0, vy = 0, vz = 2, ax = Fin 0, ay = Fin 0, az = Fin 0,
     m = 0, ap = [RAD_BETA \<mapsto> 1 / 4]\<rparr>"

definition ghost :: reb_particle where
  "ghost = \<lparr>x = 5, y = 0, z = 0, vx = 0, vy = 0, vz = 0, ax = Fin 0, ay = Fin 0, az = Fin 0,
     m = 0, ap = [RAD_BETA \<mapsto> 7]\<rparr>"

definition disc_sim :: reb_simulation where
  "disc_sim = \<lparr>G = 1, N = 5, N_var = 1, particles = [sun, dust1, rock, dust2, ghost]\<rparr>"

definition disc_rad :: rebx_effect where
  "disc_rad = \<lparr>paramsPtr = \<lparr>c = 10, source_index = 0\<rparr>\<rparr>"

definition pebble :: reb_particle where
  "pebble = \<lparr>x = 7, y = 7, z = 7, vx = 3, vy = 0, vz = 0, ax = Fin 4, ay = Fin 0, az = Fin 0,
     m = 9, ap = [OTHER_PARAM 0 \<mapsto> 1]\<rparr>"


definition swing_rad :: rebx_effect where
  "swing_rad = \<lparr>paramsPtr = \<lparr>c = 10, source_index = 0\<rparr>\<rparr>"

definition swing_source :: reb_particle where
  "swing_source = star\<lparr>x := 1, y := 1, z := 1, vx := 3, vy := - 2, vz := 5, m := 3\<rparr>"



definition swing_sim :: "reb_particle \<Rightarrow> reb_simulation" where
  "swing_sim p = \<lparr>G = 2, N = 2, N_var = 0, particles = [swing_source, p]\<rparr>"

section \<open>Rounding to double precision\<close>

text \<open>
  The model above keeps the arithmetic exact. This section adds the rounding of IEEE-754
  binary64, so that the properties that hold in exact arithmetic only can be told from
  those that hold of the doubles of the C program.

  \<open>ilog2 n\<close> is the floor of the binary logarithm of an integer \<open>n \<ge> 1\<close>, \<open>clog2 n\<close> its
  ceiling, and \<open>expo v\<close> the floor of the binary logarithm of \<open>|v|\<close> for a real \<open>v \<noteq> 0\<close>:
  the exponent of the binade of \<open>v\<close>.
\<close>

function ilog2 :: "int \<Rightarrow> int" where
  "ilog2 n = (if n \<le> 1 then 0 else 1 + ilog2 (n div 2))"
  by pat_completeness auto
termination
  by (relation "measure nat") auto

declare ilog2.simps [simp del]

definition clog2 :: "int \<Rightarrow> int" where
  "clog2 n = (if n \<le> 1 then 0 else ilog2 (n - 1) + 1)"

definition expo :: "real \<Rightarrow> int" where
  "expo v = (if 1 \<le> \<bar>v\<bar> then ilog2 \<lfloor>\<bar>v\<bar>\<rfloor> else - clog2 \<lceil>1 / \<bar>v\<bar>\<rceil>)"

text \<open>
  \<open>pow2 e\<close> is \<open>2^e\<close> for an integer \<open>e\<close>; \<open>rne q\<close> is the integer nearest to \<open>q\<close>, the even
  one of two nearest.
\<close>

definition pow2 :: "int \<Rightarrow> real" where
  "pow2 e = (if 0 \<le> e then 2 ^ nat e else 1 / 2 ^ nat (- e))"

definition rne :: "real \<Rightarrow> int" where
  "rne q = (let f = \<lfloor>q\<rfloor>; r = q - of_int f
            in if r < 1 / 2 then f else if 1 / 2 < r then f + 1 else if even f then f else f + 1)"

text \<open>
  Rounding to nearest, ties to even, to binary64: 53 bits of precision, the spacing
  \<open>2^(e-52)\<close> in the binade of exponent \<open>e\<close>, the spacing \<open>2^(-1074)\<close> of the subnormal
  numbers below \<open>2^(-1022)\<close>, and an infinity when the rounded magnitude reaches
  \<open>2^1024\<close>.
\<close>

definition round64 :: "real \<Rightarrow> double" where
  "round64 v =
     (if v = 0 then Fin 0
      else
        (let e = max (expo v) (- 1022) - 52;
             w = of_int (rne (v / pow2 e)) * pow2 e
         in if 2 ^ 1024 \<le> \<bar>w\<bar> then NonFin else Fin w))"

text \<open>
  The operations of the C program on doubles, with the rounding \<open>rnd\<close> applied to the
  exact result of every operation: each \<^verbatim>\<open>+\<close>, \<^verbatim>\<open>-\<close>, \<^verbatim>\<open>*\<close>, \<^verbatim>\<open>/\<close> and \<^verbatim>\<open>sqrt\<close> is one
  binary64 operation (no extended precision, no fused multiply-add). With \<open>rnd = round64\<close>
  this is the arithmetic of the C program, with \<open>rnd = Fin\<close> the exact arithmetic of the
  model above. A non-finite operand gives \<open>NonFin\<close>; the properties below use the rounded
  operations on finite values only.
\<close>

definition fl_add :: "(real \<Rightarrow> double) \<Rightarrow> double \<Rightarrow> double \<Rightarrow> double" where
  "fl_add rnd a b = (case a of NonFin \<Rightarrow> NonFin
     | Fin u \<Rightarrow> (case b of NonFin \<Rightarrow> NonFin | Fin v \<Rightarrow> rnd (u + v)))"

definition fl_sub :: "(real \<Rightarrow> double) \<Rightarrow> double \<Rightarrow> double \<Rightarrow> double" where
  "fl_sub rnd a b = (case a of NonFin \<Rightarrow> NonFin
     | Fin u \<Rightarrow> (case b of NonFin \<Rightarrow> NonFin | Fin v \<Rightarrow> rnd (u - v)))"

definition fl_mul :: "(real \<Rightarrow> double) \<Rightarrow> double \<Rightarrow> double \<Rightarrow> double" where
  "fl_mul rnd a b = (case a of NonFin \<Rightarrow> NonFin
     | Fin u \<Rightarrow> (case b of NonFin \<Rightarrow> NonFin | Fin v \<Rightarrow> rnd (u * v)))"

definition fl_div :: "(real \<Rightarrow> double) \<Rightarrow> double \<Rightarrow> double \<Rightarrow> double" where
  "fl_div rnd a b = (case a of NonFin \<Rightarrow> NonFin
     | Fin u \<Rightarrow> (case b of NonFin \<Rightarrow> NonFin
         | Fin v \<Rightarrow> (if v = 0 then NonFin else rnd (u / v))))"

definition fl_sqrt :: "(real \<Rightarrow> double) \<Rightarrow> double \<Rightarrow> double" where
  "fl_sqrt rnd a = (case a of NonFin \<Rightarrow> NonFin
     | Fin u \<Rightarrow> (if u < 0 then NonFin else rnd (sqrt u)))"

text \<open>
  The function once more, line by line as \<open>rad_dr\<close>, \<open>rad_rdot\<close>, \<open>rad_factor\<close>,
  \<open>rad_accel\<close>, \<open>add_source_acc\<close>, \<open>rad_loop\<close> and \<open>rebx_radiation_forces\<close> above, with
  every operation of the C expressions rounded by \<open>rnd\<close>. The C expression
  \<^verbatim>\<open>dx*dx + dy*dy + dz*dz\<close> adds from the left.
\<close>

definition rad_dr_fl :: "(real \<Rightarrow> double) \<Rightarrow> reb_particle \<Rightarrow> reb_particle \<Rightarrow> double" where
  "rad_dr_fl rnd source p =
     (let dx = fl_sub rnd (Fin (x p)) (Fin (x source));
          dy = fl_sub rnd (Fin (y p)) (Fin (y source));
          dz = fl_sub rnd (Fin (z p)) (Fin (z source))
      in fl_sqrt rnd (fl_add rnd (fl_add rnd (fl_mul rnd dx dx) (fl_mul rnd dy dy)) (fl_mul rnd dz dz)))"

definition rad_rdot_fl :: "(real \<Rightarrow> double) \<Rightarrow> reb_particle \<Rightarrow> reb_particle \<Rightarrow> double" where
  "rad_rdot_fl rnd source p =
     (let dx = fl_sub rnd (Fin (x p)) (Fin (x source));
          dy = fl_sub rnd (Fin (y p)) (Fin (y source));
          dz = fl_sub rnd (Fin (z p)) (Fin (z source));
          dr = rad_dr_fl rnd source p;
          dvx = fl_sub rnd (Fin (vx p)) (Fin (vx source));
          dvy = fl_sub rnd (Fin (vy p)) (Fin (vy source));
          dvz = fl_sub rnd (Fin (vz p)) (Fin (vz source))
      in fl_div rnd
           (fl_add rnd (fl_add rnd (fl_mul rnd dx dvx) (fl_mul rnd dy dvy)) (fl_mul rnd dz dvz)) dr)"

definition rad_factor_fl :: "(real \<Rightarrow> double) \<Rightarrow> double \<Rightarrow> real \<Rightarrow> double" where
  "rad_factor_fl rnd rdot cl = fl_sub rnd (Fin 1) (fl_div rnd rdot (Fin cl))"

definition rad_accel_fl ::
  "(real \<Rightarrow> double) \<Rightarrow> real \<Rightarrow> double \<Rightarrow> reb_particle \<Rightarrow> reb_particle \<Rightarrow> real
     \<Rightarrow> double \<times> double \<times> double" where
  "rad_accel_fl rnd cl mu source p beta =
     (let dx = fl_sub rnd (Fin (x p)) (Fin (x source));
          dy = fl_sub rnd (Fin (y p)) (Fin (y source));
          dz = fl_sub rnd (Fin (z p)) (Fin (z source));
          dr = rad_dr_fl rnd source p;
          dvx = fl_sub rnd (Fin (vx p)) (Fin (vx source));
          dvy = fl_sub rnd (Fin (vy p)) (Fin (vy source));
          dvz = fl_sub rnd (Fin (vz p)) (Fin (vz source));
          rdot = rad_rdot_fl rnd source p;
          a_rad = fl_div rnd (fl_mul rnd (Fin beta) mu) (fl_mul rnd dr dr)
      in (fl_mul rnd a_rad
            (fl_sub rnd (fl_div rnd (fl_mul rnd (rad_factor_fl rnd rdot cl) dx) dr)
                        (fl_div rnd dvx (Fin cl))),
          fl_mul rnd a_rad
            (fl_sub rnd (fl_div rnd (fl_mul rnd (rad_factor_fl rnd rdot cl) dy) dr)
                        (fl_div rnd dvy (Fin cl))),
          fl_mul rnd a_rad
            (fl_sub rnd (fl_div rnd (fl_mul rnd (rad_factor_fl rnd rdot cl) dz) dr)
                        (fl_div rnd dvz (Fin cl)))))"

definition add_source_acc_fl ::
  "(real \<Rightarrow> double) \<Rightarrow> int \<Rightarrow> double \<times> double \<times> double \<Rightarrow> reb_simulation \<Rightarrow> reb_simulation" where
  "add_source_acc_fl rnd si t sim =
     (let s = particles sim ! nat si
      in sim\<lparr>particles := (particles sim)[nat si :=
           s\<lparr>ax := fl_add rnd (ax s) (fst t), ay := fl_add rnd (ay s) (fst (snd t)),
              az := fl_add rnd (az s) (snd (snd t))\<rparr>]\<rparr>)"

function rad_loop_fl ::
  "(real \<Rightarrow> double) \<Rightarrow> real \<Rightarrow> int \<Rightarrow> reb_particle \<Rightarrow> double \<Rightarrow> int \<Rightarrow> int \<Rightarrow> reb_simulation
     \<Rightarrow> reb_simulation option" where
  "rad_loop_fl rnd cl si source mu n_real i sim =
     (if i < n_real then
        (if i = si then rad_loop_fl rnd cl si source mu n_real (i + 1) sim
         else if \<not> nat i < length (particles sim) then None
         else
           (let p = particles sim ! nat i
            in case rebx_search_param p RAD_BETA of
                 None \<Rightarrow> rad_loop_fl rnd cl si source mu n_real (i + 1) sim
               | Some beta \<Rightarrow>
                   rad_loop_fl rnd cl si source mu n_real (i + 1)
                     (add_source_acc_fl rnd si (rad_accel_fl rnd cl mu source p beta) sim)))
      else Some sim)"
  by pat_completeness auto
termination
  by (relation "measure (\<lambda>(rnd, cl, si, source, mu, n_real, i, sim). nat (n_real - i))") auto

declare rad_loop_fl.simps [simp del]

definition rebx_radiation_forces_fl ::
  "(real \<Rightarrow> double) \<Rightarrow> reb_simulation \<Rightarrow> rebx_effect \<Rightarrow> reb_simulation option" where
  "rebx_radiation_forces_fl rnd sim rad =
     (let params = paramsPtr rad;
          cl = c params;
          si = source_index params
      in if \<not> (0 \<le> si \<and> nat si < length (particles sim)) then None
         else
           (let source = particles sim ! nat si;
                mu = fl_mul rnd (Fin (G sim)) (Fin (m source));
                n_real = N sim - N_var sim
            in rad_loop_fl rnd cl si source mu n_real 0 sim))"

section \<open>Example states for the rounded arithmetic\<close>

text \<open>
  Two particles with \<open>beta = 1\<close> at \<open>(1,0,0)\<close> at rest around the source of the scenario:
  each adds exactly 1 to \<open>ax\<close>. \<open>big_offset\<close> adds \<open>2^53\<close> to every \<open>ax\<close>. \<open>outbound1\<close> and
  \<open>inbound1\<close> move away from and towards the source with speed 1. All the numbers are
  doubles.
\<close>

definition twin_grain :: reb_particle where
  "twin_grain = \<lparr>x = 1, y = 0, z = 0, vx = 0, vy = 0, vz = 0, ax = Fin 0, ay = Fin 0, az = Fin 0,
     m = 0, ap = [RAD_BETA \<mapsto> 1]\<rparr>"

definition twin_sim :: reb_simulation where
  "twin_sim = \<lparr>G = 1, N = 3, N_var = 0, particles = [star, twin_grain, twin_grain]\<rparr>"

definition big_offset :: "nat \<Rightarrow> double \<times> double \<times> double" where
  "big_offset j = (Fin 9007199254740992, Fin 0, Fin 0)"



section \<open>Arithmetic of doubles\<close>

lemma Fin_plus [simp]: "Fin u + Fin v = Fin (u + v)" "NonFin + a = NonFin" "a + NonFin = NonFin"
  by (simp_all add: plus_double_def split: double.split)

lemma Fin_minus [simp]: "Fin u - Fin v = Fin (u - v)" "NonFin - a = NonFin" "a - NonFin = NonFin"
  by (simp_all add: minus_double_def split: double.split)

lemma Fin_times [simp]: "Fin u * Fin v = Fin (u * v)" "NonFin * a = NonFin" "a * NonFin = NonFin"
  by (simp_all add: times_double_def split: double.split)

lemma ddiv_simps [simp]:
  "ddiv NonFin d = NonFin" "ddiv a 0 = NonFin" "d \<noteq> 0 \<Longrightarrow> ddiv (Fin u) d = Fin (u / d)"
  by (simp_all add: ddiv_def split: double.split)


lemma sum_list_NonFin: "NonFin \<in> set ds \<Longrightarrow> sum_list ds = NonFin"
  by (induction ds) auto


lemma vsum_Nil: "vsum [] = (0, 0, 0)"
  by (simp add: vsum_def)

lemma vsum_Cons: "vsum (t # ts) = vadd t (vsum ts)"
  by (simp add: vsum_def vadd_def)

lemma vsum_vadd:
  "vsum (map (\<lambda>k. vadd (g k) (h k)) ks) = vadd (vsum (map g ks)) (vsum (map h ks))"
  by (simp add: vsum_def vadd_def comp_def sum_list_addf)

lemma vadd_assoc: "vadd (vadd r s) t = vadd r (vadd s t)"
  by (simp add: vadd_def add.assoc)

lemma vadd_commute: "vadd s t = vadd t s"
  by (simp add: vadd_def add.commute)

lemma vadd_zero [simp]: "vadd (0, 0, 0) t = t" "vadd t (0, 0, 0) = t"
  by (simp_all add: vadd_def)

section \<open>The loop in closed form\<close>

lemma add_source_acc_zero:
  "nat si < length (particles sim) \<Longrightarrow> add_source_acc si (0, 0, 0) sim = sim"
  by (simp add: add_source_acc_def)

lemma add_source_acc_twice:
  "nat si < length (particles sim) \<Longrightarrow>
   add_source_acc si t (add_source_acc si s sim) = add_source_acc si (vadd s t) sim"
  by (simp add: add_source_acc_def vadd_def Let_def add.assoc)

lemma particles_add_source_acc_other:
  "j \<noteq> nat si \<Longrightarrow> particles (add_source_acc si t sim) ! j = particles sim ! j"
  by (simp add: add_source_acc_def Let_def)

lemma length_add_source_acc:
  "length (particles (add_source_acc si t sim)) = length (particles sim)"
  by (simp add: add_source_acc_def Let_def)

lemma source_of_add_source_acc:
  "nat (source_index (paramsPtr rad)) < length (particles sim) \<Longrightarrow>
   source_of (add_source_acc (source_index (paramsPtr rad)) t sim) rad =
     (source_of sim rad)\<lparr>ax := ax (source_of sim rad) + fst t,
        ay := ay (source_of sim rad) + fst (snd t), az := az (source_of sim rad) + snd (snd t)\<rparr>"
  by (simp add: source_of_def add_source_acc_def Let_def)

lemma add_source_acc_update_other:
  assumes "j \<noteq> nat si"
  shows "add_source_acc si t (sim\<lparr>particles := (particles sim)[j := q]\<rparr>) =
     (add_source_acc si t sim)\<lparr>particles := (particles (add_source_acc si t sim))[j := q]\<rparr>"
  using assms by (simp add: add_source_acc_def Let_def list_update_swap)

lemma particle_update_swap:
  "(p::reb_particle)\<lparr>ap := aps, ax := a, ay := b, az := d\<rparr> = p\<lparr>ax := a, ay := b, az := d, ap := aps\<rparr>"
  by (cases p) simp

text \<open>
  The terms of lines 61 to 63 depend on the positions and velocities of the two particles
  only.
\<close>

lemma rad_accel_source_cong:
  assumes "x s2 = x s1" "y s2 = y s1" "z s2 = z s1" "vx s2 = vx s1" "vy s2 = vy s1" "vz s2 = vz s1"
  shows "rad_accel cl mu s2 p beta = rad_accel cl mu s1 p beta"
  using assms by (simp add: rad_accel_def rad_dr_def rad_rdot_def Let_def)

lemma rad_accel_acc_update:
  "rad_accel cl mu (s\<lparr>ax := a, ay := b, az := d\<rparr>) (p\<lparr>ax := a', ay := b', az := d'\<rparr>) beta
     = rad_accel cl mu s p beta"
  by (simp add: rad_accel_def rad_dr_def rad_rdot_def Let_def)

lemma rad_accel_ap_update:
  "rad_accel cl mu (s\<lparr>ap := u\<rparr>) p beta = rad_accel cl mu s p beta"
  "rad_accel cl mu s (p\<lparr>ap := u\<rparr>) beta = rad_accel cl mu s p beta"
  by (simp_all add: rad_accel_def rad_dr_def rad_rdot_def Let_def)

lemma rad_accel_coincident:
  assumes "x p = x source" "y p = y source" "z p = z source"
  shows "rad_accel cl mu source p beta = (NonFin, NonFin, NonFin)"
  using assms by (simp add: rad_accel_def rad_dr_def Let_def)


lemma iter_term_cong:
  "particles s2 ! nat j = particles s1 ! nat j \<Longrightarrow>
   iter_term cl si source mu s2 j = iter_term cl si source mu s1 j"
  by (simp add: iter_term_def split: option.split)

lemma iter_term_add_source_acc:
  "0 \<le> si \<Longrightarrow> 0 \<le> j \<Longrightarrow> iter_term cl si source mu (add_source_acc si t sim) j = iter_term cl si source mu sim j"
proof (cases "j = si")
  case True
  then show ?thesis by (simp add: iter_term_def)
next
  case False
  assume "0 \<le> si" "0 \<le> j"
  with False have "nat j \<noteq> nat si" by simp
  then show ?thesis
    using False by (simp add: iter_term_def particles_add_source_acc_other split: option.split)
qed

declare rad_loop.simps [simp del]

lemma rad_loop_skip_untagged:
  assumes "i < n_real" "i \<noteq> si" "nat i < length (particles sim)"
    "rebx_search_param (particles sim ! nat i) RAD_BETA = None"
  shows "rad_loop cl si source mu n_real i sim = rad_loop cl si source mu n_real (i + 1) sim"
  using assms by (subst rad_loop.simps) simp

lemma rad_loop_skip_source:
  "rad_loop cl si source mu n_real si sim =
     (if si < n_real then rad_loop cl si source mu n_real (si + 1) sim else Some sim)"
  by (subst rad_loop.simps) simp

text \<open>
  The loop from counter \<open>i\<close> on adds the sum of the terms of the indices \<open>i\<close> to
  \<open>n_real - 1\<close>, when the array holds these indices.
\<close>

lemma rad_loop_closed:
  "0 \<le> i \<Longrightarrow> 0 \<le> si \<Longrightarrow> nat si < length (particles sim) \<Longrightarrow>
   n_real \<le> int (length (particles sim)) \<Longrightarrow>
   rad_loop cl si source mu n_real i sim =
     Some (add_source_acc si (vsum (map (iter_term cl si source mu sim) [i..n_real - 1])) sim)"
proof (induction cl si source mu n_real i sim rule: rad_loop.induct)
  case (1 cl si source mu n_real i sim)
  show ?case
  proof (cases "i < n_real")
    case False
    then have "[i..n_real - 1] = []" by simp
    with False 1(4-) show ?thesis
      by (simp add: rad_loop.simps[of cl si source mu n_real i sim] vsum_Nil add_source_acc_zero)
  next
    case True
    then have up: "[i..n_real - 1] = i # [i + 1..n_real - 1]"
      by (simp add: upto_rec1)
    have inr: "nat i < length (particles sim)" using True 1(4-) by linarith
    have vs: "vsum (map (iter_term cl si source mu sim) [i..n_real - 1])
        = vadd (iter_term cl si source mu sim i) (vsum (map (iter_term cl si source mu sim) [i + 1..n_real - 1]))"
      unfolding up by (simp add: vsum_Cons)
    show ?thesis
    proof (cases "i = si")
      case eq: True
      have "rad_loop cl si source mu n_real i sim = rad_loop cl si source mu n_real (i + 1) sim"
        using True eq by (subst rad_loop.simps) simp
      also have "\<dots> = Some (add_source_acc si (vsum (map (iter_term cl si source mu sim) [i + 1..n_real - 1])) sim)"
        using 1(1)[OF True eq] 1(4-) by simp
      also have "vsum (map (iter_term cl si source mu sim) [i + 1..n_real - 1]) = vsum (map (iter_term cl si source mu sim) [i..n_real - 1])"
        unfolding vs using eq by (simp add: iter_term_def)
      finally show ?thesis .
    next
      case ne: False
      show ?thesis
      proof (cases "rebx_search_param (particles sim ! nat i) RAD_BETA")
        case None
        have "rad_loop cl si source mu n_real i sim = rad_loop cl si source mu n_real (i + 1) sim"
          using True ne inr None by (subst rad_loop.simps) simp
        also have "\<dots> = Some (add_source_acc si (vsum (map (iter_term cl si source mu sim) [i + 1..n_real - 1])) sim)"
          using 1(2)[OF True ne _ refl None] inr 1(4-) by simp
        also have "vsum (map (iter_term cl si source mu sim) [i + 1..n_real - 1]) = vsum (map (iter_term cl si source mu sim) [i..n_real - 1])"
          unfolding vs using ne None by (simp add: iter_term_def)
        finally show ?thesis .
      next
        case (Some beta)
        let ?t = "rad_accel cl mu source (particles sim ! nat i) beta"
        let ?sim' = "add_source_acc si ?t sim"
        have it: "iter_term cl si source mu sim i = ?t"
          using ne Some by (simp add: iter_term_def)
        have "rad_loop cl si source mu n_real i sim = rad_loop cl si source mu n_real (i + 1) ?sim'"
          using True ne inr Some by (subst rad_loop.simps) simp
        also have "\<dots> = Some (add_source_acc si (vsum (map (iter_term cl si source mu ?sim') [i + 1..n_real - 1])) ?sim')"
          using 1(3)[OF True ne _ refl Some] inr 1(4-) by (simp add: length_add_source_acc)
        also have "map (iter_term cl si source mu ?sim') [i + 1..n_real - 1] = map (iter_term cl si source mu sim) [i + 1..n_real - 1]"
          using 1(4-) by (intro map_cong refl iter_term_add_source_acc) auto
        also have "add_source_acc si (vsum (map (iter_term cl si source mu sim) [i + 1..n_real - 1])) ?sim'
            = add_source_acc si (vsum (map (iter_term cl si source mu sim) [i..n_real - 1])) sim"
          unfolding vs using 1(4-) by (simp add: add_source_acc_twice it)
        finally show ?thesis .
      qed
    qed
  qed
qed

text \<open>
  When the array is shorter than \<open>n_real\<close>, the loop reads beyond it.
\<close>

lemma rad_loop_overrun:
  "0 \<le> i \<Longrightarrow> 0 \<le> si \<Longrightarrow> nat si < length (particles sim) \<Longrightarrow>
   i \<le> int (length (particles sim)) \<Longrightarrow> int (length (particles sim)) < n_real \<Longrightarrow>
   rad_loop cl si source mu n_real i sim = None"
proof (induction cl si source mu n_real i sim rule: rad_loop.induct)
  case (1 cl si source mu n_real i sim)
  have lt: "i < n_real" using 1(7,8) by simp
  show ?case
  proof (cases "i = si")
    case True
    then have "rad_loop cl si source mu n_real i sim = rad_loop cl si source mu n_real (i + 1) sim"
      using lt by (subst rad_loop.simps) simp
    also have "\<dots> = None"
      using 1(1)[OF lt True] 1(4-) True by simp
    finally show ?thesis .
  next
    case ne: False
    show ?thesis
    proof (cases "nat i < length (particles sim)")
      case False
      then show ?thesis
        using lt ne by (subst rad_loop.simps) simp
    next
      case inr: True
      show ?thesis
      proof (cases "rebx_search_param (particles sim ! nat i) RAD_BETA")
        case None
        have "rad_loop cl si source mu n_real i sim = rad_loop cl si source mu n_real (i + 1) sim"
          using lt ne inr None by (subst rad_loop.simps) simp
        also have "\<dots> = None"
          using 1(2)[OF lt ne _ refl None] inr 1(4-) by simp
        finally show ?thesis .
      next
        case (Some beta)
        let ?sim' = "add_source_acc si (rad_accel cl mu source (particles sim ! nat i) beta) sim"
        have "rad_loop cl si source mu n_real i sim = rad_loop cl si source mu n_real (i + 1) ?sim'"
          using lt ne inr Some by (subst rad_loop.simps) simp
        also have "\<dots> = None"
          using 1(3)[OF lt ne _ refl Some] inr 1(4-) by (simp add: length_add_source_acc)
        finally show ?thesis .
      qed
    qed
  qed
qed

lemma valid_callD:
  assumes "valid_call sim rad"
  shows "0 \<le> source_index (paramsPtr rad)"
    and "nat (source_index (paramsPtr rad)) < length (particles sim)"
    and "N sim - N_var sim \<le> int (length (particles sim))"
  using assms by (auto simp: valid_call_def)

lemma rebx_radiation_forces_closed:
  assumes "valid_call sim rad"
  shows "rebx_radiation_forces sim rad =
     Some (add_source_acc (source_index (paramsPtr rad))
       (vsum (map (iter_term (c (paramsPtr rad)) (source_index (paramsPtr rad)) (source_of sim rad)
                  (G sim * m (source_of sim rad)) sim)
             [0..N sim - N_var sim - 1])) sim)"
proof -
  let ?si = "source_index (paramsPtr rad)"
  from assms have v: "0 \<le> ?si" "nat ?si < length (particles sim)"
      "N sim - N_var sim \<le> int (length (particles sim))"
    by (auto simp: valid_call_def)
  have "rebx_radiation_forces sim rad =
      rad_loop (c (paramsPtr rad)) ?si (source_of sim rad) (G sim * m (source_of sim rad))
        (N sim - N_var sim) 0 sim"
    using v by (simp add: rebx_radiation_forces_def Let_def source_of_def)
  also have "\<dots> = Some (add_source_acc ?si
       (vsum (map (iter_term (c (paramsPtr rad)) ?si (source_of sim rad)
                  (G sim * m (source_of sim rad)) sim)
             [0..N sim - N_var sim - 1])) sim)"
    using v by (intro rad_loop_closed) auto
  finally show ?thesis .
qed

lemma rebx_radiation_forces_returns_iff:
  "(\<exists>sim'. rebx_radiation_forces sim rad = Some sim') \<longleftrightarrow> valid_call sim rad"
proof
  assume "valid_call sim rad"
  then show "\<exists>sim'. rebx_radiation_forces sim rad = Some sim'"
    by (simp add: rebx_radiation_forces_closed)
next
  assume r: "\<exists>sim'. rebx_radiation_forces sim rad = Some sim'"
  let ?si = "source_index (paramsPtr rad)"
  have si: "0 \<le> ?si \<and> nat ?si < length (particles sim)"
    using r by (auto simp: rebx_radiation_forces_def Let_def split: if_splits)
  have "N sim - N_var sim \<le> int (length (particles sim))"
  proof (rule ccontr)
    assume "\<not> N sim - N_var sim \<le> int (length (particles sim))"
    then have "rad_loop (c (paramsPtr rad)) ?si (particles sim ! nat ?si)
        (G sim * m (particles sim ! nat ?si)) (N sim - N_var sim) 0 sim = None"
      using si by (intro rad_loop_overrun) auto
    then show False
      using r si by (simp add: rebx_radiation_forces_def Let_def)
  qed
  then show "valid_call sim rad"
    using si by (auto simp: valid_call_def)
qed


text \<open>
  Replacing a particle other than the source, when no iteration of the loop sees a difference.
\<close>

lemma replace_particle:
  assumes v: "valid_call sim rad"
    and j: "j \<noteq> nat (source_index (paramsPtr rad))"
    and same: "\<And>k. 0 \<le> k \<Longrightarrow> k < N sim - N_var sim \<Longrightarrow>
       iter_term (c (paramsPtr rad)) (source_index (paramsPtr rad)) (source_of sim rad)
          (G sim * m (source_of sim rad)) (sim\<lparr>particles := (particles sim)[j := q]\<rparr>) k
       = iter_term (c (paramsPtr rad)) (source_index (paramsPtr rad)) (source_of sim rad)
          (G sim * m (source_of sim rad)) sim k"
  shows "\<exists>sim'. rebx_radiation_forces sim rad = Some sim'
     \<and> rebx_radiation_forces (sim\<lparr>particles := (particles sim)[j := q]\<rparr>) rad =
         Some (sim'\<lparr>particles := (particles sim')[j := q]\<rparr>)"
proof -
  let ?si = "source_index (paramsPtr rad)"
  let ?sim2 = "sim\<lparr>particles := (particles sim)[j := q]\<rparr>"
  have v2: "valid_call ?sim2 rad"
    using v by (simp add: valid_call_def)
  have src: "source_of ?sim2 rad = source_of sim rad"
    using j by (simp add: source_of_def)
  have maps: "map (iter_term (c (paramsPtr rad)) ?si (source_of sim rad) (G sim * m (source_of sim rad)) ?sim2)
        [0..N sim - N_var sim - 1]
      = map (iter_term (c (paramsPtr rad)) ?si (source_of sim rad) (G sim * m (source_of sim rad)) sim)
        [0..N sim - N_var sim - 1]"
    by (intro map_cong refl same) auto
  show ?thesis
    using rebx_radiation_forces_closed[OF v] rebx_radiation_forces_closed[OF v2]
    by (simp add: src maps add_source_acc_update_other[OF j])
qed

lemma length_offset_acc [simp]: "length (particles (offset_acc off sim)) = length (particles sim)"
  by (simp add: offset_acc_def)

lemma offset_acc_fields [simp]:
  "G (offset_acc off sim) = G sim" "N (offset_acc off sim) = N sim"
  "N_var (offset_acc off sim) = N_var sim"
  by (simp_all add: offset_acc_def)

lemma nth_offset_acc:
  "j < length (particles sim) \<Longrightarrow>
   particles (offset_acc off sim) ! j =
     (particles sim ! j)\<lparr>ax := ax (particles sim ! j) + fst (off j),
        ay := ay (particles sim ! j) + fst (snd (off j)),
        az := az (particles sim ! j) + snd (snd (off j))\<rparr>"
  by (simp add: offset_acc_def nth_enumerate_eq)

lemma add_source_acc_offset_acc:
  assumes "nat si < length (particles sim)"
  shows "add_source_acc si t (offset_acc off sim) = offset_acc off (add_source_acc si t sim)"
proof -
  have "particles (add_source_acc si t (offset_acc off sim)) = particles (offset_acc off (add_source_acc si t sim))"
  proof (rule nth_equalityI)
    show "length (particles (add_source_acc si t (offset_acc off sim)))
        = length (particles (offset_acc off (add_source_acc si t sim)))"
      by (simp add: length_add_source_acc)
  next
    fix j
    assume "j < length (particles (add_source_acc si t (offset_acc off sim)))"
    then have j: "j < length (particles sim)"
      by (simp add: length_add_source_acc)
    show "particles (add_source_acc si t (offset_acc off sim)) ! j
        = particles (offset_acc off (add_source_acc si t sim)) ! j"
    proof (cases "j = nat si")
      case True
      then show ?thesis
        using assms
        by (simp add: nth_offset_acc length_add_source_acc)
           (simp add: add_source_acc_def Let_def nth_offset_acc add.assoc add.commute add.left_commute)
    next
      case False
      then show ?thesis
        using j by (simp add: nth_offset_acc length_add_source_acc particles_add_source_acc_other)
    qed
  qed
  moreover have "add_source_acc si t (offset_acc off sim)
      = sim\<lparr>particles := particles (add_source_acc si t (offset_acc off sim))\<rparr>"
    by (simp add: add_source_acc_def offset_acc_def Let_def)
  moreover have "offset_acc off (add_source_acc si t sim)
      = sim\<lparr>particles := particles (offset_acc off (add_source_acc si t sim))\<rparr>"
    by (simp add: add_source_acc_def offset_acc_def Let_def)
  ultimately show ?thesis by simp
qed

lemma length_keep_beta [simp]: "length (particles (keep_beta K sim)) = length (particles sim)"
  by (simp add: keep_beta_def)

lemma keep_beta_fields [simp]:
  "G (keep_beta K sim) = G sim" "N (keep_beta K sim) = N sim" "N_var (keep_beta K sim) = N_var sim"
  by (simp_all add: keep_beta_def)

lemma nth_keep_beta:
  "j < length (particles sim) \<Longrightarrow>
   particles (keep_beta K sim) ! j =
     (if int j \<in> K then particles sim ! j
      else (particles sim ! j)\<lparr>ap := (ap (particles sim ! j))(RAD_BETA := None)\<rparr>)"
  by (simp add: keep_beta_def nth_enumerate_eq)

text \<open>
  A run on the state in which only the particles with an index in \<open>K\<close> keep their
  coefficient, and in which the source particle is \<open>s0\<close>, a particle with the position,
  velocity and mass of the source of \<open>sim\<close>.
\<close>

lemma keep_beta_run:
  assumes v: "valid_call sim rad"
    and kin: "x s0 = x (source_of sim rad)" "y s0 = y (source_of sim rad)" "z s0 = z (source_of sim rad)"
      "vx s0 = vx (source_of sim rad)" "vy s0 = vy (source_of sim rad)" "vz s0 = vz (source_of sim rad)"
      "m s0 = m (source_of sim rad)"
  shows "\<exists>S. rebx_radiation_forces
            (keep_beta K (sim\<lparr>particles := (particles sim)[nat (source_index (paramsPtr rad)) := s0]\<rparr>)) rad
          = Some S
     \<and> x (source_of S rad) = x (source_of sim rad) \<and> y (source_of S rad) = y (source_of sim rad)
     \<and> z (source_of S rad) = z (source_of sim rad) \<and> vx (source_of S rad) = vx (source_of sim rad)
     \<and> vy (source_of S rad) = vy (source_of sim rad) \<and> vz (source_of S rad) = vz (source_of sim rad)
     \<and> m (source_of S rad) = m (source_of sim rad)
     \<and> source_acc S rad = vadd (ax s0, ay s0, az s0)
          (vsum (map (\<lambda>k. if k \<in> K
                        then iter_term (c (paramsPtr rad)) (source_index (paramsPtr rad)) (source_of sim rad)
                               (G sim * m (source_of sim rad)) sim k
                        else (0, 0, 0))
                  [0..N sim - N_var sim - 1]))"
proof -
  let ?si = "source_index (paramsPtr rad)"
  let ?src = "source_of sim rad"
  let ?sim0 = "sim\<lparr>particles := (particles sim)[nat ?si := s0]\<rparr>"
  let ?sim1 = "keep_beta K ?sim0"
  let ?src1 = "source_of ?sim1 rad"
  let ?cl = "c (paramsPtr rad)"
  let ?mu = "G sim * m ?src"
  have si: "0 \<le> ?si" "nat ?si < length (particles sim)"
    and n: "N sim - N_var sim \<le> int (length (particles sim))"
    using v by (auto simp: valid_call_def)
  have v1: "valid_call ?sim1 rad"
    using v by (simp add: valid_call_def)
  have src1: "?src1 = s0 \<or> ?src1 = s0\<lparr>ap := (ap s0)(RAD_BETA := None)\<rparr>"
    using si by (simp add: source_of_def nth_keep_beta)
  have kin1: "x ?src1 = x ?src" "y ?src1 = y ?src" "z ?src1 = z ?src"
    "vx ?src1 = vx ?src" "vy ?src1 = vy ?src" "vz ?src1 = vz ?src" "m ?src1 = m ?src"
    "ax ?src1 = ax s0" "ay ?src1 = ay s0" "az ?src1 = az s0"
    using src1 kin by auto
  have it: "iter_term ?cl ?si ?src1 ?mu ?sim1 k
      = (if k \<in> K then iter_term ?cl ?si ?src ?mu sim k else (0, 0, 0))"
    if k: "0 \<le> k" "k < N sim - N_var sim" for k
  proof (cases "k = ?si")
    case True
    then show ?thesis by (simp add: iter_term_def)
  next
    case False
    have kl: "nat k < length (particles sim)" using k n by linarith
    have ne: "nat k \<noteq> nat ?si" using False k si by simp
    have acc: "rad_accel ?cl ?mu ?src1 p beta = rad_accel ?cl ?mu ?src p beta" for p beta
      by (rule rad_accel_source_cong) (simp_all add: kin1)
    show ?thesis
      using False kl ne k
      by (simp add: iter_term_def nth_keep_beta rebx_search_param_def acc split: option.split)
  qed
  have maps: "map (iter_term ?cl ?si ?src1 ?mu ?sim1) [0..N sim - N_var sim - 1]
      = map (\<lambda>k. if k \<in> K then iter_term ?cl ?si ?src ?mu sim k else (0, 0, 0)) [0..N sim - N_var sim - 1]"
    by (intro map_cong refl it) auto
  have inr1: "nat ?si < length (particles ?sim1)"
    using si by simp
  show ?thesis
    using rebx_radiation_forces_closed[OF v1] inr1
    by (simp add: kin1 maps source_acc_def source_of_add_source_acc vadd_def)
qed

lemma keep_split:
  assumes "a \<noteq> b"
  shows "vsum (map (\<lambda>k. if k \<in> {a, b} then f k else (0, 0, 0)) ks)
     = vadd (vsum (map (\<lambda>k. if k \<in> {a} then f k else (0, 0, 0)) ks))
            (vsum (map (\<lambda>k. if k \<in> {b} then f k else (0, 0, 0)) ks))"
proof -
  have "(\<lambda>k. if k \<in> {a, b} then f k else (0, 0, 0))
      = (\<lambda>k. vadd (if k \<in> {a} then f k else (0, 0, 0)) (if k \<in> {b} then f k else (0, 0, 0)))"
    using assms by (auto simp: fun_eq_iff)
  then show ?thesis
    by (simp only: vsum_vadd)
qed

section \<open>The example states, evaluated\<close>


lemma upto_0_3: "[0..3::int] = [0, 1, 2, 3]"
  by (simp add: upto_rec1)

lemma scenario_params [simp]:
  "c (paramsPtr scenario_rad) = 10000" "source_index (paramsPtr scenario_rad) = 0"
  "G scenario_sim = 1" "N scenario_sim = 2" "N_var scenario_sim = 0"
  "particles scenario_sim = [star, grain]"
  by (simp_all add: scenario_rad_def scenario_sim_def)

lemma clash_valid: "valid_call clash_sim scenario_rad"
  by (simp add: valid_call_def clash_sim_def)

lemma pebble_untagged: "rebx_search_param pebble RAD_BETA = None"
  by (simp add: rebx_search_param_def pebble_def)

lemma disc_params [simp]:
  "c (paramsPtr disc_rad) = 10" "source_index (paramsPtr disc_rad) = 0"
  "G disc_sim = 1" "N disc_sim = 5" "N_var disc_sim = 1"
  "particles disc_sim = [sun, dust1, rock, dust2, ghost]"
  by (simp_all add: disc_rad_def disc_sim_def)

lemma disc_fields [simp]:
  "ap sun RAD_BETA = Some 5" "ap dust1 RAD_BETA = Some (1 / 2)" "ap rock RAD_BETA = None"
  "ap dust2 RAD_BETA = Some (1 / 4)" "ap ghost RAD_BETA = Some 7"
  "m sun = 2" "ax sun = Fin 1" "ay sun = Fin 0" "az sun = Fin 0"
  by (simp_all add: sun_def dust1_def rock_def dust2_def ghost_def)

lemma disc_valid: "valid_call disc_sim disc_rad"
  by (simp add: valid_call_def)

lemma disc_source: "source_of disc_sim disc_rad = sun"
  by (simp add: source_of_def)




lemma disc_accel1: "rad_accel 10 2 sun dust1 (1 / 2) = (Fin (1 / 5), Fin (- 1 / 40), Fin 0)"
  by (simp add: rad_accel_def rad_dr_def rad_rdot_def rad_factor_def Let_def sun_def dust1_def)

lemma disc_accel2: "rad_accel 10 2 sun dust2 (1 / 4) = (Fin 0, Fin 0, Fin (- 7 / 10))"
  by (simp add: rad_accel_def rad_dr_def rad_rdot_def rad_factor_def Let_def sun_def dust2_def)

lemma disc_run:
  "rebx_radiation_forces disc_sim disc_rad =
     Some (disc_sim\<lparr>particles := [sun\<lparr>ax := Fin (6 / 5), ay := Fin (- 1 / 40), az := Fin (- 7 / 10)\<rparr>, dust1, rock, dust2, ghost]\<rparr>)"
  by (simp add: rebx_radiation_forces_closed[OF disc_valid] disc_source upto_0_3 iter_term_def
      rebx_search_param_def disc_accel1 disc_accel2 vsum_def add_source_acc_def)

lemma keep_disc:
  "keep_beta {1, 3} disc_sim =
     disc_sim\<lparr>particles := [sun\<lparr>ap := (ap sun)(RAD_BETA := None)\<rparr>, dust1,
        rock\<lparr>ap := (ap rock)(RAD_BETA := None)\<rparr>, dust2, ghost\<lparr>ap := (ap ghost)(RAD_BETA := None)\<rparr>]\<rparr>"
  by (simp add: keep_beta_def)

lemma keep_disc_run:
  "\<exists>S. rebx_radiation_forces (keep_beta {1, 3} disc_sim) disc_rad = Some S
     \<and> source_acc S disc_rad = (Fin (6 / 5), Fin (- 1 / 40), Fin (- 7 / 10))"
proof -
  let ?sim = "keep_beta {1, 3} disc_sim"
  let ?src = "sun\<lparr>ap := (ap sun)(RAD_BETA := None)\<rparr>"
  have v: "valid_call ?sim disc_rad"
    by (simp add: valid_call_def)
  have src: "source_of ?sim disc_rad = ?src"
    by (simp add: source_of_def keep_disc)
  have ts: "map (iter_term 10 0 ?src 2 ?sim) [0..3]
      = [(0, 0, 0), (Fin (1 / 5), Fin (- 1 / 40), Fin 0), (0, 0, 0), (Fin 0, Fin 0, Fin (- 7 / 10))]"
    by (simp add: upto_0_3 iter_term_def keep_disc rebx_search_param_def rad_accel_ap_update
        disc_accel1 disc_accel2)
  have inr: "nat (source_index (paramsPtr disc_rad)) < length (particles ?sim)"
    by simp
  have fin: "source_of (add_source_acc 0 t ?sim) disc_rad =
      ?src\<lparr>ax := Fin 1 + fst t, ay := Fin 0 + fst (snd t), az := Fin 0 + snd (snd t)\<rparr>" for t
    using source_of_add_source_acc[OF inr, of t] by (simp add: src)
  show ?thesis
    unfolding rebx_radiation_forces_closed[OF v]
    by (simp add: src ts fin source_acc_def vsum_def zero_double_def)
qed

section \<open>The rounded arithmetic\<close>

text \<open>
  \<open>ilog2\<close> is the floor of the binary logarithm, and the rounded value is an integer
  multiple of the spacing within half a spacing of the exact one.
\<close>

lemma ilog2_nonneg: "0 \<le> ilog2 n"
proof (induction n rule: ilog2.induct)
  case (1 n)
  show ?case
  proof (cases "n \<le> 1")
    case True
    then show ?thesis by (subst ilog2.simps) simp
  next
    case False
    with 1 show ?thesis by (subst ilog2.simps) simp
  qed
qed

lemma ilog2_bounds:
  "1 \<le> n \<Longrightarrow> 2 ^ nat (ilog2 n) \<le> n \<and> n < 2 * 2 ^ nat (ilog2 n)"
proof (induction n rule: ilog2.induct)
  case (1 n)
  show ?case
  proof (cases "n \<le> 1")
    case True
    with 1(2) have "n = 1" by simp
    then show ?thesis by (subst ilog2.simps, subst ilog2.simps) simp
  next
    case False
    then have h: "1 \<le> n div 2" by simp
    have il: "ilog2 n = 1 + ilog2 (n div 2)"
      using False by (subst ilog2.simps) simp
    have p: "(2::int) ^ nat (1 + ilog2 (n div 2)) = 2 * 2 ^ nat (ilog2 (n div 2))"
      using ilog2_nonneg[of "n div 2"] by (simp add: nat_add_distrib)
    from 1(1)[OF False h] have "2 ^ nat (ilog2 (n div 2)) \<le> n div 2"
      and "n div 2 < 2 * 2 ^ nat (ilog2 (n div 2))" by simp_all
    then show ?thesis
      unfolding il p by linarith
  qed
qed

lemma rne_near: "\<bar>of_int (rne q) - q\<bar> \<le> 1 / 2"
proof -
  have "0 \<le> q - of_int \<lfloor>q\<rfloor>" "q - of_int \<lfloor>q\<rfloor> < 1"
    by linarith+
  then show ?thesis
    by (auto simp: rne_def Let_def)
qed

lemma round64_near:
  assumes "round64 v = Fin w"
  shows "\<bar>w - v\<bar> \<le> pow2 (max (expo v) (- 1022) - 52) / 2"
proof (cases "v = 0")
  case True
  with assms show ?thesis by (simp add: round64_def pow2_def)
next
  case False
  let ?e = "max (expo v) (- 1022) - 52"
  have pos: "0 < pow2 ?e"
    by (simp add: pow2_def)
  from assms False have w: "w = of_int (rne (v / pow2 ?e)) * pow2 ?e"
    by (simp add: round64_def Let_def split: if_splits)
  have "(of_int (rne (v / pow2 ?e)) - v / pow2 ?e) * pow2 ?e = w - v"
    using pos by (simp add: w field_simps)
  then have "\<bar>w - v\<bar> = \<bar>(of_int (rne (v / pow2 ?e)) - v / pow2 ?e) * pow2 ?e\<bar>"
    by simp
  also have "\<dots> = \<bar>of_int (rne (v / pow2 ?e)) - v / pow2 ?e\<bar> * pow2 ?e"
    using pos by (simp add: abs_mult)
  also have "\<dots> \<le> 1 / 2 * pow2 ?e"
    using rne_near[of "v / pow2 ?e"] pos by (intro mult_right_mono) simp_all
  finally show ?thesis by simp
qed

text \<open>
  Without rounding, the rounded model is the exact model.
\<close>

lemma fl_exact [simp]:
  "fl_add Fin a b = a + b" "fl_sub Fin a b = a - b" "fl_mul Fin a b = a * b"
  "fl_div Fin a (Fin v) = ddiv a v"
  by (simp_all add: fl_add_def fl_sub_def fl_mul_def fl_div_def plus_double_def minus_double_def
      times_double_def ddiv_def split: double.split)

lemma rad_dr_fl_exact: "rad_dr_fl Fin source p = Fin (rad_dr source p)"
  by (simp add: rad_dr_fl_def rad_dr_def Let_def fl_sqrt_def not_less)

lemma rad_rdot_fl_exact: "rad_rdot_fl Fin source p = rad_rdot source p"
  by (simp add: rad_rdot_fl_def rad_rdot_def Let_def rad_dr_fl_exact)

lemma rad_factor_fl_exact: "rad_factor_fl Fin rdot cl = rad_factor rdot cl"
  by (simp add: rad_factor_fl_def rad_factor_def)

lemma rad_accel_fl_exact: "rad_accel_fl Fin cl (Fin mu) source p beta = rad_accel cl mu source p beta"
  by (simp add: rad_accel_fl_def rad_accel_def Let_def rad_dr_fl_exact rad_rdot_fl_exact
      rad_factor_fl_exact)

lemma add_source_acc_fl_exact: "add_source_acc_fl Fin si t sim = add_source_acc si t sim"
  by (simp add: add_source_acc_fl_def add_source_acc_def)

lemma rad_loop_fl_exact:
  "rad_loop_fl Fin cl si source (Fin mu) n_real i sim = rad_loop cl si source mu n_real i sim"
proof (induction cl si source mu n_real i sim rule: rad_loop.induct)
  case (1 cl si source mu n_real i sim)
  show ?case
  proof (cases "i < n_real")
    case False
    then show ?thesis
      by (subst rad_loop_fl.simps, subst rad_loop.simps) simp
  next
    case lt: True
    show ?thesis
    proof (cases "i = si")
      case True
      then show ?thesis
        using lt 1(1)[OF lt True]
        by (subst rad_loop_fl.simps, subst rad_loop.simps) simp
    next
      case ne: False
      show ?thesis
      proof (cases "nat i < length (particles sim)")
        case False
        then show ?thesis
          using lt ne by (subst rad_loop_fl.simps, subst rad_loop.simps) simp
      next
        case inr: True
        show ?thesis
        proof (cases "rebx_search_param (particles sim ! nat i) RAD_BETA")
          case None
          then show ?thesis
            using lt ne inr 1(2)[OF lt ne _ refl None]
            by (subst rad_loop_fl.simps, subst rad_loop.simps) simp
        next
          case (Some beta)
          then show ?thesis
            using lt ne inr 1(3)[OF lt ne _ refl Some]
            by (subst rad_loop_fl.simps, subst rad_loop.simps)
               (simp add: rad_accel_fl_exact add_source_acc_fl_exact)
        qed
      qed
    qed
  qed
qed

lemma rebx_radiation_forces_fl_exact:
  "rebx_radiation_forces_fl Fin sim rad = rebx_radiation_forces sim rad"
  by (simp add: rebx_radiation_forces_fl_def rebx_radiation_forces_def Let_def rad_loop_fl_exact)

text \<open>
  Values of the rounding: \<open>2^53 + 1\<close> lies halfway between two doubles and goes to the
  even one, \<open>2^53\<close>; \<open>1/10\<close> is no double.
\<close>

lemma ilog2_numeral [simp]:
  "ilog2 (numeral k) = (if numeral k \<le> (1::int) then 0 else 1 + ilog2 (numeral k div 2))"
  "ilog2 1 = 0" "ilog2 0 = 0"
  by (subst ilog2.simps, simp)+

lemma round64_values [simp]:
  "round64 0 = Fin 0" "round64 1 = Fin 1" "round64 2 = Fin 2" "round64 (- 1) = Fin (- 1)"
  "round64 10 = Fin 10" "round64 10000 = Fin 10000"
  "round64 9007199254740992 = Fin 9007199254740992"
  "round64 9007199254740993 = Fin 9007199254740992"
  by (simp_all add: round64_def expo_def pow2_def rne_def Let_def)


lemma fl_Fin [simp]:
  "fl_add rnd (Fin u) (Fin v) = rnd (u + v)" "fl_sub rnd (Fin u) (Fin v) = rnd (u - v)"
  "fl_mul rnd (Fin u) (Fin v) = rnd (u * v)"
  "v \<noteq> 0 \<Longrightarrow> fl_div rnd (Fin u) (Fin v) = rnd (u / v)"
  "0 \<le> u \<Longrightarrow> fl_sqrt rnd (Fin u) = rnd (sqrt u)"
  by (simp_all add: fl_add_def fl_sub_def fl_mul_def fl_div_def fl_sqrt_def)

lemma twin_fields [simp]:
  "G twin_sim = 1" "N twin_sim = 3" "N_var twin_sim = 0"
  "particles twin_sim = [star, twin_grain, twin_grain]"
  "ap twin_grain RAD_BETA = Some 1"
  by (simp_all add: twin_sim_def twin_grain_def)

lemma star_fields:
  "x star = 0" "y star = 0" "z star = 0" "vx star = 0" "vy star = 0" "vz star = 0"
  "m star = 1" "ax star = Fin 0" "ay star = Fin 0" "az star = Fin 0"
  by (simp_all add: star_def)

lemma twin_offset:
  "offset_acc big_offset twin_sim =
     twin_sim\<lparr>particles := [star\<lparr>ax := Fin 9007199254740992\<rparr>,
        twin_grain\<lparr>ax := Fin 9007199254740992\<rparr>, twin_grain\<lparr>ax := Fin 9007199254740992\<rparr>]\<rparr>"
  by (simp add: offset_acc_def big_offset_def)
     (simp add: star_def twin_grain_def)

section \<open>One particle with a coefficient\<close>





lemma swing_fields [simp]:
  "c (paramsPtr swing_rad) = 10" "source_index (paramsPtr swing_rad) = 0"
  "G (swing_sim p) = 2" "N (swing_sim p) = 2" "N_var (swing_sim p) = 0"
  "particles (swing_sim p) = [swing_source, p]"
  by (simp_all add: swing_rad_def swing_sim_def)


section \<open>The properties of the specification\<close>



text \<open>
  C2. A real particle other than the source whose lookup of \<open>RAD_BETA\<close> returns absent:
  its iteration of the loop passes the state on as it is, and the run returns the same
  result whatever the other data of that particle are (any particle \<open>q\<close> without a
  coefficient in its place gives the same accelerations of the source). The skip is no
  error: the function returns.
\<close>

theorem untagged_particle_contributes_nothing:
  assumes "valid_call sim rad"
    and "0 \<le> i" and "i < N sim - N_var sim" and "i \<noteq> source_index (paramsPtr rad)"
    and "rebx_search_param (particles sim ! nat i) RAD_BETA = None"
    and "rebx_search_param q RAD_BETA = None"
  shows "rad_loop cl (source_index (paramsPtr rad)) source mu (N sim - N_var sim) i sim
       = rad_loop cl (source_index (paramsPtr rad)) source mu (N sim - N_var sim) (i + 1) sim
     \<and> (\<exists>sim'. rebx_radiation_forces sim rad = Some sim'
          \<and> rebx_radiation_forces (sim\<lparr>particles := (particles sim)[nat i := q]\<rparr>) rad =
              Some (sim'\<lparr>particles := (particles sim')[nat i := q]\<rparr>))"
proof
  have inr: "nat i < length (particles sim)"
    using assms(1-3) by (auto simp: valid_call_def)
  show "rad_loop cl (source_index (paramsPtr rad)) source mu (N sim - N_var sim) i sim
       = rad_loop cl (source_index (paramsPtr rad)) source mu (N sim - N_var sim) (i + 1) sim"
    using assms(3,4) inr assms(5) by (rule rad_loop_skip_untagged)
  have ne: "nat i \<noteq> nat (source_index (paramsPtr rad))"
    using assms(1,2,4) by (auto simp: valid_call_def)
  show "\<exists>sim'. rebx_radiation_forces sim rad = Some sim'
          \<and> rebx_radiation_forces (sim\<lparr>particles := (particles sim)[nat i := q]\<rparr>) rad =
              Some (sim'\<lparr>particles := (particles sim')[nat i := q]\<rparr>)"
  proof (rule replace_particle[OF assms(1) ne])
    fix k :: int
    assume k: "0 \<le> k" "k < N sim - N_var sim"
    show "iter_term (c (paramsPtr rad)) (source_index (paramsPtr rad)) (source_of sim rad)
          (G sim * m (source_of sim rad)) (sim\<lparr>particles := (particles sim)[nat i := q]\<rparr>) k
       = iter_term (c (paramsPtr rad)) (source_index (paramsPtr rad)) (source_of sim rad)
          (G sim * m (source_of sim rad)) sim k"
    proof (cases "k = i")
      case True
      then show ?thesis
        using inr assms(5,6) by (simp add: iter_term_def)
    next
      case False
      then have "nat k \<noteq> nat i" using k assms(2) by simp
      then show ?thesis
        by (intro iter_term_cong) simp
    qed
  qed
qed

theorem untagged_particle_contributes_nothing_witness:
  "valid_call disc_sim disc_rad \<and> (0::int) \<le> 2 \<and> 2 < N disc_sim - N_var disc_sim
   \<and> 2 \<noteq> source_index (paramsPtr disc_rad)
   \<and> rebx_search_param (particles disc_sim ! nat 2) RAD_BETA = None
   \<and> rebx_search_param pebble RAD_BETA = None
   \<and> rad_loop 10 0 sun 2 4 2 disc_sim = rad_loop 10 0 sun 2 4 3 disc_sim
   \<and> rebx_radiation_forces (disc_sim\<lparr>particles := [sun, dust1, pebble, dust2, ghost]\<rparr>) disc_rad =
       Some (disc_sim\<lparr>particles :=
         [sun\<lparr>ax := Fin (6 / 5), ay := Fin (- 1 / 40), az := Fin (- 7 / 10)\<rparr>, dust1, pebble, dust2, ghost]\<rparr>)"
proof -
  have h: "(0::int) \<le> 2" "2 < N disc_sim - N_var disc_sim" "2 \<noteq> source_index (paramsPtr disc_rad)"
    "rebx_search_param (particles disc_sim ! nat 2) RAD_BETA = None"
    by (simp_all add: rebx_search_param_def)
  show ?thesis
    using untagged_particle_contributes_nothing[OF disc_valid h pebble_untagged, of 10 sun 2] h
    by (simp add: disc_valid pebble_untagged disc_run)
qed

text \<open>
  C3. In a valid call the function returns the simulation it was given with the three
  accelerations of the particle at \<open>source_index\<close> set anew, and nothing else: every other
  particle, the position, velocity, mass and parameters of the source, the particle
  counts, the length of the array and every other field of the simulation are as before.
\<close>

theorem radiation_forces_frame:
  assumes "valid_call sim rad"
  shows "\<exists>sim' a b d. rebx_radiation_forces sim rad = Some sim'
     \<and> sim' = sim\<lparr>particles := (particles sim)[nat (source_index (paramsPtr rad)) :=
                 (source_of sim rad)\<lparr>ax := a, ay := b, az := d\<rparr>]\<rparr>
     \<and> G sim' = G sim \<and> N sim' = N sim \<and> N_var sim' = N_var sim
     \<and> length (particles sim') = length (particles sim)
     \<and> (\<forall>j. j \<noteq> nat (source_index (paramsPtr rad)) \<longrightarrow> particles sim' ! j = particles sim ! j)
     \<and> x (source_of sim' rad) = x (source_of sim rad)
     \<and> y (source_of sim' rad) = y (source_of sim rad)
     \<and> z (source_of sim' rad) = z (source_of sim rad)
     \<and> vx (source_of sim' rad) = vx (source_of sim rad)
     \<and> vy (source_of sim' rad) = vy (source_of sim rad)
     \<and> vz (source_of sim' rad) = vz (source_of sim rad)
     \<and> m (source_of sim' rad) = m (source_of sim rad)
     \<and> ap (source_of sim' rad) = ap (source_of sim rad)"
proof -
  let ?si = "source_index (paramsPtr rad)"
  obtain t where run: "rebx_radiation_forces sim rad = Some (add_source_acc ?si t sim)"
    using rebx_radiation_forces_closed[OF assms] by blast
  have inr: "nat ?si < length (particles sim)"
    using assms by (rule valid_callD)
  let ?a = "ax (source_of sim rad) + fst t"
  let ?b = "ay (source_of sim rad) + fst (snd t)"
  let ?d = "az (source_of sim rad) + snd (snd t)"
  have eq: "add_source_acc ?si t sim = sim\<lparr>particles := (particles sim)[nat ?si :=
                 (source_of sim rad)\<lparr>ax := ?a, ay := ?b, az := ?d\<rparr>]\<rparr>"
    by (simp add: add_source_acc_def source_of_def Let_def)
  have "\<forall>j. j \<noteq> nat ?si \<longrightarrow> particles (add_source_acc ?si t sim) ! j = particles sim ! j"
    by (simp add: particles_add_source_acc_other)
  then show ?thesis
    unfolding run using inr
    by (intro exI[of _ "add_source_acc ?si t sim"] exI[of _ ?a] exI[of _ ?b] exI[of _ ?d])
       (simp add: eq source_of_def)
qed

theorem radiation_forces_frame_witness:
  "valid_call disc_sim disc_rad
   \<and> (\<exists>sim'. rebx_radiation_forces disc_sim disc_rad = Some sim'
        \<and> particles sim' = [sun\<lparr>ax := Fin (6 / 5), ay := Fin (- 1 / 40), az := Fin (- 7 / 10)\<rparr>, dust1, rock, dust2, ghost]
        \<and> G sim' = 1 \<and> N sim' = 5 \<and> N_var sim' = 1)"
  using radiation_forces_frame[OF disc_valid] by (simp add: disc_valid disc_run)

text \<open>
  C4. The iteration of the loop at \<open>source_index\<close> goes on to the next index with the state
  as it is, and the result of a run does not depend on the parameter store of the source
  particle: with any store \<open>aps\<close> in its place, a coefficient or none, the accelerations
  are the same.
\<close>

theorem source_particle_skipped:
  assumes "valid_call sim rad"
  shows "rad_loop cl (source_index (paramsPtr rad)) source mu n_real (source_index (paramsPtr rad)) s
       = (if source_index (paramsPtr rad) < n_real
          then rad_loop cl (source_index (paramsPtr rad)) source mu n_real (source_index (paramsPtr rad) + 1) s
          else Some s)
     \<and> (\<exists>sim'. rebx_radiation_forces sim rad = Some sim'
          \<and> rebx_radiation_forces
               (sim\<lparr>particles := (particles sim)[nat (source_index (paramsPtr rad)) :=
                  (source_of sim rad)\<lparr>ap := aps\<rparr>]\<rparr>) rad =
              Some (sim'\<lparr>particles := (particles sim')[nat (source_index (paramsPtr rad)) :=
                  (source_of sim' rad)\<lparr>ap := aps\<rparr>]\<rparr>))"
proof
  let ?si = "source_index (paramsPtr rad)"
  let ?src = "source_of sim rad"
  let ?sim2 = "sim\<lparr>particles := (particles sim)[nat ?si := ?src\<lparr>ap := aps\<rparr>]\<rparr>"
  show "rad_loop cl ?si source mu n_real ?si s
       = (if ?si < n_real then rad_loop cl ?si source mu n_real (?si + 1) s else Some s)"
    by (rule rad_loop_skip_source)
  have si: "0 \<le> ?si" "nat ?si < length (particles sim)"
    using assms by (auto simp: valid_call_def)
  have v2: "valid_call ?sim2 rad"
    using assms by (simp add: valid_call_def)
  have src2: "source_of ?sim2 rad = ?src\<lparr>ap := aps\<rparr>"
    using si by (simp add: source_of_def)
  have it: "iter_term (c (paramsPtr rad)) ?si (?src\<lparr>ap := aps\<rparr>) (G sim * m ?src) ?sim2 k
      = iter_term (c (paramsPtr rad)) ?si ?src (G sim * m ?src) sim k" if "0 \<le> k" for k
  proof (cases "k = ?si")
    case True
    then show ?thesis by (simp add: iter_term_def)
  next
    case False
    with that si have "nat k \<noteq> nat ?si" by simp
    then have "iter_term (c (paramsPtr rad)) ?si (?src\<lparr>ap := aps\<rparr>) (G sim * m ?src) ?sim2 k
      = iter_term (c (paramsPtr rad)) ?si (?src\<lparr>ap := aps\<rparr>) (G sim * m ?src) sim k"
      by (intro iter_term_cong) simp
    also have "\<dots> = iter_term (c (paramsPtr rad)) ?si ?src (G sim * m ?src) sim k"
      by (simp add: iter_term_def rad_accel_source_cong[of "?src\<lparr>ap := aps\<rparr>" ?src] split: option.split)
    finally show ?thesis .
  qed
  have maps: "map (iter_term (c (paramsPtr rad)) ?si (?src\<lparr>ap := aps\<rparr>) (G sim * m ?src) ?sim2)
        [0..N sim - N_var sim - 1]
      = map (iter_term (c (paramsPtr rad)) ?si ?src (G sim * m ?src) sim) [0..N sim - N_var sim - 1]"
    by (intro map_cong refl it) auto
  have upd: "add_source_acc ?si t ?sim2 =
      (add_source_acc ?si t sim)\<lparr>particles := (particles (add_source_acc ?si t sim))[nat ?si :=
          (source_of (add_source_acc ?si t sim) rad)\<lparr>ap := aps\<rparr>]\<rparr>" for t
    using si by (simp add: add_source_acc_def source_of_def Let_def particle_update_swap)
  show "\<exists>sim'. rebx_radiation_forces sim rad = Some sim'
          \<and> rebx_radiation_forces ?sim2 rad =
              Some (sim'\<lparr>particles := (particles sim')[nat ?si := (source_of sim' rad)\<lparr>ap := aps\<rparr>]\<rparr>)"
    using rebx_radiation_forces_closed[OF assms] rebx_radiation_forces_closed[OF v2]
    by (simp add: src2 maps upd)
qed

theorem source_particle_skipped_witness:
  "valid_call disc_sim disc_rad
   \<and> rebx_search_param (source_of disc_sim disc_rad) RAD_BETA = Some 5
   \<and> rad_loop 10 0 sun 2 4 0 disc_sim = rad_loop 10 0 sun 2 4 1 disc_sim
   \<and> rebx_radiation_forces (disc_sim\<lparr>particles := [sun\<lparr>ap := Map.empty\<rparr>, dust1, rock, dust2, ghost]\<rparr>) disc_rad =
       Some (disc_sim\<lparr>particles :=
         [sun\<lparr>ax := Fin (6 / 5), ay := Fin (- 1 / 40), az := Fin (- 7 / 10), ap := Map.empty\<rparr>,
          dust1, rock, dust2, ghost]\<rparr>)"
  using source_particle_skipped[OF disc_valid, of 10 sun 2 4 disc_sim Map.empty]
  by (simp add: disc_valid disc_run disc_source rebx_search_param_def source_of_def)

text \<open>
  C5. A particle at an index at or beyond \<open>N - N_var\<close> (other than the source) contributes
  nothing: with any particle \<open>q\<close> in its place, with or without a coefficient, the run
  returns the same result.
\<close>

theorem variational_particles_ignored:
  assumes "valid_call sim rad"
    and "N sim - N_var sim \<le> int j" and "j \<noteq> nat (source_index (paramsPtr rad))"
  shows "\<exists>sim'. rebx_radiation_forces sim rad = Some sim'
          \<and> rebx_radiation_forces (sim\<lparr>particles := (particles sim)[j := q]\<rparr>) rad =
              Some (sim'\<lparr>particles := (particles sim')[j := q]\<rparr>)"
proof (rule replace_particle[OF assms(1,3)])
  fix k :: int
  assume k: "0 \<le> k" "k < N sim - N_var sim"
  then have "nat k \<noteq> j" using assms(2) by linarith
  then show "iter_term (c (paramsPtr rad)) (source_index (paramsPtr rad)) (source_of sim rad)
          (G sim * m (source_of sim rad)) (sim\<lparr>particles := (particles sim)[j := q]\<rparr>) k
       = iter_term (c (paramsPtr rad)) (source_index (paramsPtr rad)) (source_of sim rad)
          (G sim * m (source_of sim rad)) sim k"
    by (intro iter_term_cong) simp
qed

theorem variational_particles_ignored_witness:
  "valid_call disc_sim disc_rad \<and> N disc_sim - N_var disc_sim \<le> int 4
   \<and> 4 \<noteq> nat (source_index (paramsPtr disc_rad))
   \<and> rebx_search_param (particles disc_sim ! 4) RAD_BETA = Some 7
   \<and> rebx_radiation_forces (disc_sim\<lparr>particles := [sun, dust1, rock, dust2, dust1]\<rparr>) disc_rad =
       Some (disc_sim\<lparr>particles :=
         [sun\<lparr>ax := Fin (6 / 5), ay := Fin (- 1 / 40), az := Fin (- 7 / 10)\<rparr>, dust1, rock, dust2, dust1]\<rparr>)"
proof -
  have h: "N disc_sim - N_var disc_sim \<le> int 4" "4 \<noteq> nat (source_index (paramsPtr disc_rad))"
    by simp_all
  show ?thesis
    using variational_particles_ignored[OF disc_valid h, of dust1] h
    by (simp add: disc_valid disc_run rebx_search_param_def)
qed

text \<open>
  C6. No guard against \<open>dr = 0\<close>: when a real particle with a coefficient, other than the
  source, is at the position of the source, the divisor \<open>dr\<close> is zero, the radial velocity
  is non-finite, and the function still returns, with the three accelerations of the
  source non-finite (an infinity or a NaN) and no error.
\<close>

theorem coincident_positions_non_finite:
  assumes "valid_call sim rad"
    and "0 \<le> i" and "i < N sim - N_var sim" and "i \<noteq> source_index (paramsPtr rad)"
    and "rebx_search_param (particles sim ! nat i) RAD_BETA = Some beta"
    and "x (particles sim ! nat i) = x (source_of sim rad)"
    and "y (particles sim ! nat i) = y (source_of sim rad)"
    and "z (particles sim ! nat i) = z (source_of sim rad)"
  shows "rad_dr (source_of sim rad) (particles sim ! nat i) = 0
     \<and> rad_rdot (source_of sim rad) (particles sim ! nat i) = NonFin
     \<and> (\<exists>sim'. rebx_radiation_forces sim rad = Some sim'
          \<and> ax (source_of sim' rad) = NonFin
          \<and> ay (source_of sim' rad) = NonFin
          \<and> az (source_of sim' rad) = NonFin)"
proof -
  let ?si = "source_index (paramsPtr rad)"
  let ?f = "iter_term (c (paramsPtr rad)) ?si (source_of sim rad) (G sim * m (source_of sim rad)) sim"
  let ?ts = "map ?f [0..N sim - N_var sim - 1]"
  have inr: "nat ?si < length (particles sim)"
    using assms(1) by (auto simp: valid_call_def)
  have dr: "rad_dr (source_of sim rad) (particles sim ! nat i) = 0"
    using assms(6-8) by (simp add: rad_dr_def)
  then have rdot: "rad_rdot (source_of sim rad) (particles sim ! nat i) = NonFin"
    by (simp add: rad_rdot_def Let_def)
  have "?f i = (NonFin, NonFin, NonFin)"
    using assms(4,5) by (simp add: iter_term_def rad_accel_coincident[OF assms(6-8)])
  moreover have "i \<in> set [0..N sim - N_var sim - 1]"
    using assms(2,3) by simp
  ultimately have mem: "(NonFin, NonFin, NonFin) \<in> set ?ts"
    by (metis image_eqI set_map)
  have "NonFin \<in> set (map fst ?ts)" "NonFin \<in> set (map (\<lambda>t. fst (snd t)) ?ts)"
      "NonFin \<in> set (map (\<lambda>t. snd (snd t)) ?ts)"
    using mem by (force simp del: set_map map_map simp add: set_map[of _ ?ts])+
  then have "vsum ?ts = (NonFin, NonFin, NonFin)"
    by (simp add: vsum_def sum_list_NonFin del: map_map)
  then show ?thesis
    using rebx_radiation_forces_closed[OF assms(1)] inr dr rdot
    by (simp add: source_of_add_source_acc)
qed

theorem coincident_positions_non_finite_witness:
  "valid_call clash_sim scenario_rad \<and> (0::int) \<le> 1 \<and> 1 < N clash_sim - N_var clash_sim
   \<and> 1 \<noteq> source_index (paramsPtr scenario_rad)
   \<and> rebx_search_param (particles clash_sim ! nat 1) RAD_BETA = Some (1 / 100)
   \<and> x (particles clash_sim ! nat 1) = x (source_of clash_sim scenario_rad)
   \<and> y (particles clash_sim ! nat 1) = y (source_of clash_sim scenario_rad)
   \<and> z (particles clash_sim ! nat 1) = z (source_of clash_sim scenario_rad)
   \<and> (\<exists>sim'. rebx_radiation_forces clash_sim scenario_rad = Some sim'
          \<and> ax (source_of sim' scenario_rad) = NonFin
          \<and> ay (source_of sim' scenario_rad) = NonFin
          \<and> az (source_of sim' scenario_rad) = NonFin)"
proof -
  have h: "(0::int) \<le> 1" "1 < N clash_sim - N_var clash_sim"
    "1 \<noteq> source_index (paramsPtr scenario_rad)"
    "rebx_search_param (particles clash_sim ! nat 1) RAD_BETA = Some (1 / 100)"
    "x (particles clash_sim ! nat 1) = x (source_of clash_sim scenario_rad)"
    "y (particles clash_sim ! nat 1) = y (source_of clash_sim scenario_rad)"
    "z (particles clash_sim ! nat 1) = z (source_of clash_sim scenario_rad)"
    by (simp_all add: clash_sim_def source_of_def rebx_search_param_def grain_def star_def)
  show ?thesis
    using coincident_positions_non_finite[OF clash_valid h] h clash_valid by simp
qed



text \<open>
  C8. Accumulation is additive and independent of the order. \<open>keep_beta K sim\<close> is the
  state in which only the particles with an index in \<open>K\<close> keep their coefficient. For two
  different indices \<open>a\<close> and \<open>b\<close>, one run with both particles gives the accelerations
  of the source that a run with only \<open>a\<close>, followed by a run with only \<open>b\<close> on the state
  with the source that the first run left, gives; and so do the two runs in the other
  order. Every one of the runs returns.
\<close>

theorem accumulation_additive:
  assumes "valid_call sim rad" and "a \<noteq> b"
  shows "\<exists>sAB sA sA_B sB sB_A.
       rebx_radiation_forces (keep_beta {a, b} sim) rad = Some sAB
     \<and> rebx_radiation_forces (keep_beta {a} sim) rad = Some sA
     \<and> rebx_radiation_forces
          (keep_beta {b} (sim\<lparr>particles := (particles sim)[nat (source_index (paramsPtr rad)) := source_of sA rad]\<rparr>))
          rad = Some sA_B
     \<and> source_acc sA_B rad = source_acc sAB rad
     \<and> rebx_radiation_forces (keep_beta {b} sim) rad = Some sB
     \<and> rebx_radiation_forces
          (keep_beta {a} (sim\<lparr>particles := (particles sim)[nat (source_index (paramsPtr rad)) := source_of sB rad]\<rparr>))
          rad = Some sB_A
     \<and> source_acc sB_A rad = source_acc sAB rad"
proof -
  let ?si = "source_index (paramsPtr rad)"
  let ?src = "source_of sim rad"
  let ?f = "iter_term (c (paramsPtr rad)) ?si ?src (G sim * m ?src) sim"
  let ?W = "\<lambda>K. vsum (map (\<lambda>k. if k \<in> K then ?f k else (0, 0, 0)) [0..N sim - N_var sim - 1])"
  let ?a0 = "(ax ?src, ay ?src, az ?src)"
  have self: "sim\<lparr>particles := (particles sim)[nat ?si := ?src]\<rparr> = sim"
    by (simp add: source_of_def)
  obtain sAB where sAB: "rebx_radiation_forces (keep_beta {a, b} sim) rad = Some sAB"
      "source_acc sAB rad = vadd ?a0 (?W {a, b})"
    using keep_beta_run[OF assms(1), of ?src "{a, b}"] by (auto simp: self)
  obtain sA where sA: "rebx_radiation_forces (keep_beta {a} sim) rad = Some sA"
      "x (source_of sA rad) = x ?src" "y (source_of sA rad) = y ?src" "z (source_of sA rad) = z ?src"
      "vx (source_of sA rad) = vx ?src" "vy (source_of sA rad) = vy ?src" "vz (source_of sA rad) = vz ?src"
      "m (source_of sA rad) = m ?src"
      "source_acc sA rad = vadd ?a0 (?W {a})"
    using keep_beta_run[OF assms(1), of ?src "{a}"] by (auto simp: self)
  obtain sB where sB: "rebx_radiation_forces (keep_beta {b} sim) rad = Some sB"
      "x (source_of sB rad) = x ?src" "y (source_of sB rad) = y ?src" "z (source_of sB rad) = z ?src"
      "vx (source_of sB rad) = vx ?src" "vy (source_of sB rad) = vy ?src" "vz (source_of sB rad) = vz ?src"
      "m (source_of sB rad) = m ?src"
      "source_acc sB rad = vadd ?a0 (?W {b})"
    using keep_beta_run[OF assms(1), of ?src "{b}"] by (auto simp: self)
  obtain sA_B where sA_B: "rebx_radiation_forces
          (keep_beta {b} (sim\<lparr>particles := (particles sim)[nat ?si := source_of sA rad]\<rparr>)) rad = Some sA_B"
      "source_acc sA_B rad = vadd (source_acc sA rad) (?W {b})"
    using keep_beta_run[OF assms(1) sA(2-8), of "{b}"] by (auto simp: source_acc_def)
  obtain sB_A where sB_A: "rebx_radiation_forces
          (keep_beta {a} (sim\<lparr>particles := (particles sim)[nat ?si := source_of sB rad]\<rparr>)) rad = Some sB_A"
      "source_acc sB_A rad = vadd (source_acc sB rad) (?W {a})"
    using keep_beta_run[OF assms(1) sB(2-8), of "{a}"] by (auto simp: source_acc_def)
  have split: "?W {a, b} = vadd (?W {a}) (?W {b})"
    using assms(2) by (rule keep_split)
  have "source_acc sA_B rad = source_acc sAB rad"
    by (simp only: sA_B(2) sA(9) sAB(2) split vadd_assoc)
  moreover have "source_acc sB_A rad = source_acc sAB rad"
    by (simp only: sB_A(2) sB(9) sAB(2) split vadd_assoc vadd_commute[of "?W {b}" "?W {a}"])
  ultimately show ?thesis
    using sAB(1) sA(1) sA_B(1) sB(1) sB_A(1) by blast
qed

theorem accumulation_additive_witness:
  "valid_call disc_sim disc_rad \<and> (1::int) \<noteq> 3
   \<and> (\<exists>sA sA_B sB sB_A.
         rebx_radiation_forces (keep_beta {1} disc_sim) disc_rad = Some sA
       \<and> rebx_radiation_forces
            (keep_beta {3} (disc_sim\<lparr>particles := (particles disc_sim)[0 := source_of sA disc_rad]\<rparr>))
            disc_rad = Some sA_B
       \<and> source_acc sA_B disc_rad = (Fin (6 / 5), Fin (- 1 / 40), Fin (- 7 / 10))
       \<and> rebx_radiation_forces (keep_beta {3} disc_sim) disc_rad = Some sB
       \<and> rebx_radiation_forces
            (keep_beta {1} (disc_sim\<lparr>particles := (particles disc_sim)[0 := source_of sB disc_rad]\<rparr>))
            disc_rad = Some sB_A
       \<and> source_acc sB_A disc_rad = (Fin (6 / 5), Fin (- 1 / 40), Fin (- 7 / 10)))"
proof -
  have ne: "(1::int) \<noteq> 3" by simp
  from accumulation_additive[OF disc_valid ne] obtain sAB sA sA_B sB sB_A where
    r: "rebx_radiation_forces (keep_beta {1, 3} disc_sim) disc_rad = Some sAB"
      "rebx_radiation_forces (keep_beta {1} disc_sim) disc_rad = Some sA"
      "rebx_radiation_forces
          (keep_beta {3} (disc_sim\<lparr>particles := (particles disc_sim)[nat (source_index (paramsPtr disc_rad)) := source_of sA disc_rad]\<rparr>))
          disc_rad = Some sA_B"
      "source_acc sA_B disc_rad = source_acc sAB disc_rad"
      "rebx_radiation_forces (keep_beta {3} disc_sim) disc_rad = Some sB"
      "rebx_radiation_forces
          (keep_beta {1} (disc_sim\<lparr>particles := (particles disc_sim)[nat (source_index (paramsPtr disc_rad)) := source_of sB disc_rad]\<rparr>))
          disc_rad = Some sB_A"
      "source_acc sB_A disc_rad = source_acc sAB disc_rad"
    by blast
  from keep_disc_run r(1) have "source_acc sAB disc_rad = (Fin (6 / 5), Fin (- 1 / 40), Fin (- 7 / 10))"
    by simp
  with r(2-7) have "rebx_radiation_forces (keep_beta {1} disc_sim) disc_rad = Some sA
       \<and> rebx_radiation_forces
            (keep_beta {3} (disc_sim\<lparr>particles := (particles disc_sim)[0 := source_of sA disc_rad]\<rparr>))
            disc_rad = Some sA_B
       \<and> source_acc sA_B disc_rad = (Fin (6 / 5), Fin (- 1 / 40), Fin (- 7 / 10))
       \<and> rebx_radiation_forces (keep_beta {3} disc_sim) disc_rad = Some sB
       \<and> rebx_radiation_forces
            (keep_beta {1} (disc_sim\<lparr>particles := (particles disc_sim)[0 := source_of sB disc_rad]\<rparr>))
            disc_rad = Some sB_A
       \<and> source_acc sB_A disc_rad = (Fin (6 / 5), Fin (- 1 / 40), Fin (- 7 / 10))"
    by simp
  then show ?thesis
    using disc_valid ne by blast
qed




text \<open>
  C10, in exact arithmetic. The terms the function adds do not depend on the accelerations
  the particles start with: adding any offsets to the accelerations of the particles
  before the call (\<open>offset_acc\<close>, one triple of offsets per index) gives the result of
  the call on the state without the offsets, with the same offsets added.
\<close>

theorem acceleration_offset_invariant:
  assumes "valid_call sim rad"
  shows "\<exists>sim'. rebx_radiation_forces sim rad = Some sim'
     \<and> rebx_radiation_forces (offset_acc off sim) rad = Some (offset_acc off sim')"
proof -
  let ?si = "source_index (paramsPtr rad)"
  let ?src = "source_of sim rad"
  let ?src2 = "source_of (offset_acc off sim) rad"
  have si: "0 \<le> ?si" "nat ?si < length (particles sim)"
    and n: "N sim - N_var sim \<le> int (length (particles sim))"
    using assms by (auto simp: valid_call_def)
  have v2: "valid_call (offset_acc off sim) rad"
    using assms by (simp add: valid_call_def)
  have src2: "?src2 = ?src\<lparr>ax := ax ?src + fst (off (nat ?si)),
        ay := ay ?src + fst (snd (off (nat ?si))), az := az ?src + snd (snd (off (nat ?si)))\<rparr>"
    using si by (simp add: source_of_def nth_offset_acc)
  have it: "iter_term (c (paramsPtr rad)) ?si ?src2 (G sim * m ?src) (offset_acc off sim) k
      = iter_term (c (paramsPtr rad)) ?si ?src (G sim * m ?src) sim k"
    if "0 \<le> k" "k < N sim - N_var sim" for k
  proof -
    have "nat k < length (particles sim)" using that n by linarith
    then show ?thesis
      by (simp add: iter_term_def nth_offset_acc rebx_search_param_def src2 rad_accel_acc_update
          split: option.split)
  qed
  have maps: "map (iter_term (c (paramsPtr rad)) ?si ?src2 (G sim * m ?src) (offset_acc off sim))
        [0..N sim - N_var sim - 1]
      = map (iter_term (c (paramsPtr rad)) ?si ?src (G sim * m ?src) sim) [0..N sim - N_var sim - 1]"
    by (intro map_cong refl it) auto
  have m2: "m ?src2 = m ?src"
    by (simp add: src2)
  show ?thesis
    using rebx_radiation_forces_closed[OF assms] rebx_radiation_forces_closed[OF v2]
    by (simp add: m2 maps add_source_acc_offset_acc[OF si(2)])
qed

theorem acceleration_offset_invariant_witness:
  "valid_call disc_sim disc_rad
   \<and> rebx_radiation_forces (offset_acc (\<lambda>j. (Fin 1, Fin 2, Fin 3)) disc_sim) disc_rad =
       Some (offset_acc (\<lambda>j. (Fin 1, Fin 2, Fin 3))
         (disc_sim\<lparr>particles :=
            [sun\<lparr>ax := Fin (6 / 5), ay := Fin (- 1 / 40), az := Fin (- 7 / 10)\<rparr>, dust1, rock, dust2, ghost]\<rparr>))
   \<and> ax (source_of (offset_acc (\<lambda>j. (Fin 1, Fin 2, Fin 3))
         (disc_sim\<lparr>particles :=
            [sun\<lparr>ax := Fin (6 / 5), ay := Fin (- 1 / 40), az := Fin (- 7 / 10)\<rparr>, dust1, rock, dust2, ghost]\<rparr>))
         disc_rad) = Fin (11 / 5)"
  using acceleration_offset_invariant[OF disc_valid, of "\<lambda>j. (Fin 1, Fin 2, Fin 3)"]
  by (simp add: disc_valid disc_run) (simp add: source_of_def offset_acc_def)

text \<open>
  C10, as it is stated, fails in the double arithmetic of the program: from \<open>ax = 0\<close>
  the two particles of \<open>twin_sim\<close> take \<open>ax\<close> to 2, and from \<open>ax = 2^53\<close> they leave it at
  \<open>2^53\<close>, since \<open>2^53 + 1\<close> rounds to \<open>2^53\<close> twice; the result shifted by the
  offset would be \<open>2^53 + 2\<close>.
\<close>

theorem acceleration_offset_rounded_counterexample:
  "rebx_radiation_forces_fl round64 twin_sim scenario_rad =
     Some (twin_sim\<lparr>particles := [star\<lparr>ax := Fin 2\<rparr>, twin_grain, twin_grain]\<rparr>)
   \<and> rebx_radiation_forces_fl round64 (offset_acc big_offset twin_sim) scenario_rad =
     Some (offset_acc big_offset twin_sim)
   \<and> ax (source_of (offset_acc big_offset twin_sim) scenario_rad) = Fin 9007199254740992
   \<and> ax (source_of (offset_acc big_offset (twin_sim\<lparr>particles := [star\<lparr>ax := Fin 2\<rparr>, twin_grain, twin_grain]\<rparr>))
           scenario_rad) = Fin 9007199254740994
   \<and> rebx_radiation_forces_fl round64 (offset_acc big_offset twin_sim) scenario_rad \<noteq>
       map_option (offset_acc big_offset) (rebx_radiation_forces_fl round64 twin_sim scenario_rad)"
proof -
  have acc: "rad_accel_fl round64 10000 (Fin 1) s (twin_grain\<lparr>ax := a\<rparr>) 1 = (Fin 1, Fin 0, Fin 0)"
    if "x s = 0" "y s = 0" "z s = 0" "vx s = 0" "vy s = 0" "vz s = 0" for s a
    using that
    by (simp add: rad_accel_fl_def rad_dr_fl_def rad_rdot_fl_def rad_factor_fl_def Let_def twin_grain_def)
  have acc0: "rad_accel_fl round64 10000 (Fin 1) s twin_grain 1 = (Fin 1, Fin 0, Fin 0)"
    if "x s = 0" "y s = 0" "z s = 0" "vx s = 0" "vy s = 0" "vz s = 0" for s
    using that
    by (simp add: rad_accel_fl_def rad_dr_fl_def rad_rdot_fl_def rad_factor_fl_def Let_def twin_grain_def)
  note st = star_fields
  have run0: "rebx_radiation_forces_fl round64 twin_sim scenario_rad =
     Some (twin_sim\<lparr>particles := [star\<lparr>ax := Fin 2\<rparr>, twin_grain, twin_grain]\<rparr>)"
    apply (simp add: rebx_radiation_forces_fl_def Let_def st)
    apply (subst rad_loop_fl.simps, simp add: rebx_search_param_def)
    apply (subst rad_loop_fl.simps, simp add: rebx_search_param_def acc0 st add_source_acc_fl_def)
    apply (subst rad_loop_fl.simps, simp add: rebx_search_param_def acc0 st add_source_acc_fl_def)
    apply (subst rad_loop_fl.simps, simp)
    apply (simp add: star_def)
    done
  have run1: "rebx_radiation_forces_fl round64 (offset_acc big_offset twin_sim) scenario_rad =
     Some (offset_acc big_offset twin_sim)"
    unfolding twin_offset
    apply (simp add: rebx_radiation_forces_fl_def Let_def st)
    apply (subst rad_loop_fl.simps, simp add: rebx_search_param_def)
    apply (subst rad_loop_fl.simps, simp add: rebx_search_param_def acc st add_source_acc_fl_def)
    apply (subst rad_loop_fl.simps, simp add: rebx_search_param_def acc st add_source_acc_fl_def)
    apply (subst rad_loop_fl.simps, simp)
    apply (simp add: Let_def star_def)
    done
  have a1: "ax (source_of (offset_acc big_offset twin_sim) scenario_rad) = Fin 9007199254740992"
    by (simp add: twin_offset source_of_def)
  have a2: "ax (source_of (offset_acc big_offset (twin_sim\<lparr>particles := [star\<lparr>ax := Fin 2\<rparr>, twin_grain, twin_grain]\<rparr>))
           scenario_rad) = Fin 9007199254740994"
    by (simp add: offset_acc_def big_offset_def source_of_def)
  have ne: "rebx_radiation_forces_fl round64 (offset_acc big_offset twin_sim) scenario_rad \<noteq>
       map_option (offset_acc big_offset) (rebx_radiation_forces_fl round64 twin_sim scenario_rad)"
  proof
    assume "rebx_radiation_forces_fl round64 (offset_acc big_offset twin_sim) scenario_rad =
       map_option (offset_acc big_offset) (rebx_radiation_forces_fl round64 twin_sim scenario_rad)"
    then have "offset_acc big_offset twin_sim =
        offset_acc big_offset (twin_sim\<lparr>particles := [star\<lparr>ax := Fin 2\<rparr>, twin_grain, twin_grain]\<rparr>)"
      unfolding run0 run1 by simp
    then have "ax (source_of (offset_acc big_offset twin_sim) scenario_rad) =
        ax (source_of (offset_acc big_offset (twin_sim\<lparr>particles := [star\<lparr>ax := Fin 2\<rparr>, twin_grain, twin_grain]\<rparr>))
           scenario_rad)"
      by (rule arg_cong)
    then show False
      unfolding a1 a2 by simp
  qed
  show ?thesis
    by (intro conjI run0 run1 a1 a2 ne)
qed

end
